theory Spec2Isabelle
  imports Complex_Main "HOL-Library.Sublist"
begin

section \<open>Data model (src/types/index.ts)\<close>

text \<open>
  JavaScript strings are modelled as \<open>string\<close> (lists of characters). Prices are JavaScript
  numbers; they are modelled as exact rationals, so \<open>NaN\<close>, the infinities and rounding are
  outside the model. Seat counts are integers. A trip's \<open>duration\<close> is \<open>int option\<close>, where
  \<open>None\<close> stands for \<open>NaN\<close> (the legacy adapter computes it from \<open>Date\<close> objects, which may
  be invalid). The field \<open>redirectUrl\<close> of a trip is not represented: it is a URL string
  on which no property below depends, and building it cannot fail.
\<close>

datatype VehicleType = Bus | Ferry | Train

record Price =
  amount :: rat
  currency :: string

record TripPlace =
  place_id :: string
  place_name :: string
  place_city :: string

record TripSegment =
  seg_origin :: TripPlace
  seg_destination :: TripPlace
  seg_departureTime :: string
  seg_arrivalTime :: string
  seg_vehicleType :: VehicleType
  seg_operator :: string

record TripOption =
  trip_id :: string
  bookingToken :: string
  departureTime :: string
  arrivalTime :: string
  departureDate :: string
  arrivalDate :: string
  duration :: "int option"
  price :: Price
  operator :: string
  operatorLogo :: "string option"
  vehicleType :: VehicleType
  availableSeats :: int
  amenities :: "string list"
  segments :: "TripSegment list"
  origin :: TripPlace
  destination :: TripPlace

section \<open>Runtime helpers\<close>

text \<open>Decimal rendering of a natural number, as \<open>String(n)\<close> gives it.\<close>

definition digit :: "nat \<Rightarrow> char" where
  "digit n = ''0123456789'' ! (n mod 10)"

fun decimal :: "nat \<Rightarrow> string" where
  "decimal n = (if n < 10 then [digit n] else decimal (n div 10) @ [digit n])"

declare decimal.simps [simp del]

text \<open>
  \<open>Number::toString\<close> on integer-valued amounts. The functions below take the rendering
  of a number as a parameter; this one instantiates it in the examples.
\<close>

definition showAmount :: "rat \<Rightarrow> string" where
  "showAmount r = (if r < 0 then ''-'' else []) @ decimal (nat \<lfloor>\<bar>r\<bar>\<rfloor>)"

text \<open>
  A JavaScript \<open>Map\<close> iterates in insertion order and \<open>set\<close> on a key that is present
  keeps the key's position: an association list, updated in place or extended at the end.
\<close>

fun map_set :: "('k \<times> 'v) list \<Rightarrow> 'k \<Rightarrow> 'v \<Rightarrow> ('k \<times> 'v) list" where
  "map_set [] k v = [(k, v)]"
| "map_set ((k', v') # m) k v = (if k' = k then (k, v) # m else (k', v') # map_set m k v)"

definition map_values :: "('k \<times> 'v) list \<Rightarrow> 'v list" where
  "map_values m = map snd m"

section \<open>Deduplication (src/app/api/search/route.ts)\<close>

text \<open>
  The key is the template string
  \<open>`${departureTime}-${arrivalTime}-${operator}-${price.amount}`\<close>; \<open>numStr\<close> is the
  runtime's rendering of a number.
\<close>

definition getTripKey :: "(rat \<Rightarrow> string) \<Rightarrow> TripOption \<Rightarrow> string" where
  "getTripKey numStr trip =
     departureTime trip @ ''-'' @ arrivalTime trip @ ''-'' @ operator trip @ ''-''
       @ numStr (amount (price trip))"

definition dedupStep ::
  "(rat \<Rightarrow> string) \<Rightarrow> (string \<times> TripOption) list \<Rightarrow> TripOption \<Rightarrow> (string \<times> TripOption) list"
where
  "dedupStep numStr seen trip =
     (let key = getTripKey numStr trip in
      case map_of seen key of
        None \<Rightarrow> map_set seen key trip
      | Some existing \<Rightarrow>
          if availableSeats trip > availableSeats existing then map_set seen key trip
          else seen)"

definition deduplicateTrips :: "(rat \<Rightarrow> string) \<Rightarrow> TripOption list \<Rightarrow> TripOption list" where
  "deduplicateTrips numStr trips = map_values (foldl (dedupStep numStr) [] trips)"

section \<open>String and array operations of the runtime\<close>

text \<open>
  Characters are the 8-bit characters of HOL. \<open>toLowerCase\<close> maps the letters A to Z to
  a to z and leaves every other character as it is; white space (the class \<open>\s\<close> of a
  regular expression, which \<open>trim\<close> strips as well) is tab, line feed, vertical tab,
  form feed, carriage return, space and the no-break space.
\<close>

definition toLowerChar :: "char \<Rightarrow> char" where
  "toLowerChar c =
     (case map_of (zip ''ABCDEFGHIJKLMNOPQRSTUVWXYZ'' ''abcdefghijklmnopqrstuvwxyz'') c of
        Some l \<Rightarrow> l
      | None \<Rightarrow> c)"

definition toLowerCase :: "string \<Rightarrow> string" where
  "toLowerCase s = map toLowerChar s"

definition isSpace :: "char \<Rightarrow> bool" where
  "isSpace c \<longleftrightarrow> c \<in> set [CHR 0x09, CHR 0x0A, CHR 0x0B, CHR 0x0C, CHR 0x0D, CHR '' '', CHR 0xA0]"

definition trim :: "string \<Rightarrow> string" where
  "trim s = rev (dropWhile isSpace (rev (dropWhile isSpace s)))"

definition startsWith :: "string \<Rightarrow> string \<Rightarrow> bool" where
  "startsWith s q = prefix q s"

definition includes_str :: "string \<Rightarrow> string \<Rightarrow> bool" where
  "includes_str s q = sublist q s"

text \<open>
  \<open>s.split(/\s+/)\<close>: the pieces of \<open>s\<close> between its maximal runs of white space; a run at
  the start or the end of \<open>s\<close> leaves an empty piece there, and the empty string gives
  one empty piece.
\<close>

function splitSpaces :: "string \<Rightarrow> string list" where
  "splitSpaces s =
     (let w = takeWhile (\<lambda>c. \<not> isSpace c) s; r = dropWhile (\<lambda>c. \<not> isSpace c) s
      in if r = [] then [w] else w # splitSpaces (dropWhile isSpace r))"
  by pat_completeness auto
termination
proof (relation "measure length")
  show "wf (measure length)" by simp
next
  fix s :: string and w r
  assume r: "r = dropWhile (\<lambda>c. \<not> isSpace c) s" and ne: "r \<noteq> []"
  from ne obtain c cs where rc: "r = c # cs" by (cases r) auto
  with r have "dropWhile (\<lambda>c. \<not> isSpace c) s = c # cs" by simp
  then have "isSpace c" by (simp add: dropWhile_eq_Cons_conv)
  with rc have "length (dropWhile isSpace r) \<le> length cs"
    by (simp add: length_dropWhile_le)
  also have "length cs < length r" using rc by simp
  also have "length r \<le> length s" unfolding r by (rule length_dropWhile_le)
  finally show "(dropWhile isSpace r, s) \<in> measure length" by simp
qed

declare splitSpaces.simps [simp del]

text \<open>
  \<open>Array.prototype.sort\<close> with a comparison function is a stable sort: \<open>a\<close> comes after
  \<open>b\<close> when \<open>compare(a, b) > 0\<close>, and elements that compare equal keep their order.
  Insertion from the right is the stable sort.
\<close>

fun arrayInsert :: "('a \<Rightarrow> 'a \<Rightarrow> 'n::{zero,linorder}) \<Rightarrow> 'a \<Rightarrow> 'a list \<Rightarrow> 'a list" where
  "arrayInsert cmp x [] = [x]"
| "arrayInsert cmp x (y # ys) = (if cmp x y > 0 then y # arrayInsert cmp x ys else x # y # ys)"

definition arraySort :: "('a \<Rightarrow> 'a \<Rightarrow> 'n::{zero,linorder}) \<Rightarrow> 'a list \<Rightarrow> 'a list" where
  "arraySort cmp xs = foldr (arrayInsert cmp) xs []"

text \<open>
  A comparison function orders consistently when swapping its arguments swaps the sign
  of its result and "not after" is transitive.
\<close>

definition consistentCmp :: "('a \<Rightarrow> 'a \<Rightarrow> 'n::{zero,linorder}) \<Rightarrow> bool" where
  "consistentCmp cmp \<longleftrightarrow>
     (\<forall>a b. cmp a b > 0 \<longleftrightarrow> cmp b a < 0) \<and>
     (\<forall>a b c. cmp a b \<le> 0 \<and> cmp b c \<le> 0 \<longrightarrow> cmp a c \<le> 0)"

text \<open>
  \<open>parseInt(s)\<close> without a radix: leading white space is skipped, then an optional sign,
  then the prefix \<open>0x\<close> or \<open>0X\<close> selects radix 16; the longest prefix of digits of the
  radix is the value, and \<open>None\<close> (\<open>NaN\<close>) results when there is no digit.
\<close>

definition digitValue :: "char \<Rightarrow> nat option" where
  "digitValue c =
     map_of (zip ''0123456789abcdefABCDEF''
       [0, 1, 2, 3, 4, 5, 6, 7, 8, 9, 10, 11, 12, 13, 14, 15, 10, 11, 12, 13, 14, 15]) c"

definition isDigitOf :: "nat \<Rightarrow> char \<Rightarrow> bool" where
  "isDigitOf radix c = (case digitValue c of None \<Rightarrow> False | Some v \<Rightarrow> v < radix)"

definition digitsValue :: "nat \<Rightarrow> string \<Rightarrow> nat" where
  "digitsValue radix ds = foldl (\<lambda>acc c. acc * radix + (case digitValue c of None \<Rightarrow> 0 | Some v \<Rightarrow> v)) 0 ds"

definition parseInt :: "string \<Rightarrow> int option" where
  "parseInt s =
     (let s1 = dropWhile isSpace s;
          negative = (s1 \<noteq> [] \<and> hd s1 = CHR ''-'');
          s2 = (if s1 \<noteq> [] \<and> (hd s1 = CHR ''-'' \<or> hd s1 = CHR ''+'') then tl s1 else s1);
          hex = (prefix ''0x'' s2 \<or> prefix ''0X'' s2);
          radix = (if hex then 16 else 10);
          s3 = (if hex then drop 2 s2 else s2);
          ds = takeWhile (isDigitOf radix) s3
      in if ds = [] then None
         else Some ((if negative then - 1 else 1) * int (digitsValue radix ds)))"

text \<open>
  \<open>a.localeCompare(b)\<close> is a parameter of the functions that sort by it. The comparison
  by character codes instantiates it in the examples: on times of the form \<open>HH:MM\<close> the
  two agree.
\<close>

fun codeUnitCompare :: "string \<Rightarrow> string \<Rightarrow> int" where
  "codeUnitCompare [] [] = 0"
| "codeUnitCompare [] (y # ys) = - 1"
| "codeUnitCompare (x # xs) [] = 1"
| "codeUnitCompare (x # xs) (y # ys) =
     (if (of_char x :: nat) < of_char y then - 1
      else if (of_char y :: nat) < of_char x then 1
      else codeUnitCompare xs ys)"

text \<open>
  What the map holds under a key \<open>k\<close> after the trips \<open>xs\<close>: a trip of \<open>xs\<close> with that
  key whose seat count no trip of \<open>xs\<close> with the key exceeds, and the first such trip.
\<close>

definition heldOK :: "('a \<Rightarrow> 'k) \<Rightarrow> ('a \<Rightarrow> int) \<Rightarrow> 'a list \<Rightarrow> 'k \<Rightarrow> 'a \<Rightarrow> bool" where
  "heldOK f g xs k v \<longleftrightarrow>
     f v = k \<and> v \<in> set xs \<and> (\<forall>t \<in> set xs. f t = k \<longrightarrow> g t \<le> g v) \<and>
     find (\<lambda>t. f t = k \<and> g t = g v) xs = Some v"

text \<open>The loop invariant of deduplicateTrips after the trips \<open>xs\<close>.\<close>

definition dedupInv ::
  "(rat \<Rightarrow> string) \<Rightarrow> TripOption list \<Rightarrow> (string \<times> TripOption) list \<Rightarrow> bool"
where
  "dedupInv numStr xs seen \<longleftrightarrow>
     distinct (map fst seen) \<and>
     fst ` set seen = getTripKey numStr ` set xs \<and>
     (\<forall>p \<in> set seen. heldOK (getTripKey numStr) availableSeats xs (fst p) (snd p))"

text \<open>A trip for the examples.\<close>

definition sampleTrip :: "string \<Rightarrow> string \<Rightarrow> string \<Rightarrow> rat \<Rightarrow> int \<Rightarrow> TripOption" where
  "sampleTrip dep arr opr amt seats =
     \<lparr>trip_id = ''trip'', bookingToken = ''token'', departureTime = dep, arrivalTime = arr,
      departureDate = ''2025-06-01'', arrivalDate = ''2025-06-01'', duration = Some 120,
      price = \<lparr>amount = amt, currency = ''THB''\<rparr>, operator = opr, operatorLogo = None,
      vehicleType = Bus, availableSeats = seats, amenities = [], segments = [],
      origin = \<lparr>place_id = ''A'', place_name = ''A'', place_city = ''A''\<rparr>,
      destination = \<lparr>place_id = ''B'', place_name = ''B'', place_city = ''B''\<rparr>\<rparr>"

section \<open>Chat tool-calling loop (src/app/api/chat/route.ts)\<close>

text \<open>
  The model's answers and the tools are the environment of the loop. An answer is a stop
  reason and a list of content blocks; \<open>handleToolCall\<close> is a parameter (it catches
  every exception of a tool and returns a result). The answers that follow the first one
  are given as a list, in the order in which \<open>anthropic.messages.create\<close> returns them;
  \<open>None\<close> in that list is a call that throws. The loop returns \<open>None\<close> when it still waits
  for an answer at the end of the list.
\<close>

record ArticleData =
  article_id :: string
  article_title :: string
  article_url :: string
  article_imageUrl :: "string option"
  article_excerpt :: "string option"
  article_destination :: "string option"





record ChatState =
  allTrips :: "TripOption list"
  allArticles :: "ArticleData list"




















section \<open>Station directory (src/lib/stations-loader.ts)\<close>

datatype Company = TwelveGo | P10

record Station =
  station_id :: string
  station_name :: string
  station_city :: string
  station_province :: string
  station_country :: string
  station_lat :: rat
  station_lon :: rat
  station_company :: Company

text \<open>
  The score of one station for the normalized query, as the body of the \<open>map\<close> callback
  computes it: three \<open>if / else if / else if\<close> chains and the word test.
\<close>

definition scoreStation :: "string \<Rightarrow> Station \<Rightarrow> int" where
  "scoreStation normalizedQuery station =
     (let name = toLowerCase (station_name station);
          city = toLowerCase (station_city station);
          province = toLowerCase (station_province station);
          s1 = (if name = normalizedQuery then 100
                else if city = normalizedQuery then 90
                else if province = normalizedQuery then 80 else 0);
          s2 = s1 + (if startsWith name normalizedQuery then 50
                else if startsWith city normalizedQuery then 45
                else if startsWith province normalizedQuery then 40 else 0);
          s3 = s2 + (if includes_str name normalizedQuery then 20
                else if includes_str city normalizedQuery then 15
                else if includes_str province normalizedQuery then 10 else 0);
          words = splitSpaces name @ splitSpaces city @ splitSpaces province
      in if list_ex (\<lambda>word. startsWith word normalizedQuery) words then s3 + 30 else s3)"

text \<open>
  \<open>searchStations(query, {limit, country})\<close> over the stations of the data set; \<open>limit\<close>
  defaults to 10, and an absent or empty \<open>country\<close> does not filter.
\<close>

definition searchStations ::
  "Station list \<Rightarrow> string \<Rightarrow> nat option \<Rightarrow> string option \<Rightarrow> Station list" where
  "searchStations stations query limit country =
     (if query = [] \<or> length query < 2 then []
      else
        let normalizedQuery = trim (toLowerCase query);
            kept = filter (\<lambda>station.
                     \<not> (case country of
                          None \<Rightarrow> False
                        | Some c \<Rightarrow> c \<noteq> [] \<and>
                            toLowerCase (station_country station) \<noteq> toLowerCase c)) stations;
            scored = map (\<lambda>station. (station, scoreStation normalizedQuery station)) kept;
            positive = filter (\<lambda>(station, score). score > 0) scored;
            sorted = arraySort (\<lambda>a b. snd b - snd a) positive
        in map fst (take (case limit of None \<Rightarrow> 10 | Some l \<Rightarrow> l) sorted))"

text \<open>
  The score as claim C8 words it: every applicable bonus counts, the name, city and
  province bonuses of one tier together.
\<close>

definition claimedScore :: "string \<Rightarrow> Station \<Rightarrow> int" where
  "claimedScore normalizedQuery station =
     (let name = toLowerCase (station_name station);
          city = toLowerCase (station_city station);
          province = toLowerCase (station_province station);
          bonus = (\<lambda>b n. if b then n else (0::int));
          words = splitSpaces name @ splitSpaces city @ splitSpaces province
      in bonus (name = normalizedQuery) 100 + bonus (city = normalizedQuery) 90
         + bonus (province = normalizedQuery) 80
         + bonus (startsWith name normalizedQuery) 50 + bonus (startsWith city normalizedQuery) 45
         + bonus (startsWith province normalizedQuery) 40
         + bonus (includes_str name normalizedQuery) 20 + bonus (includes_str city normalizedQuery) 15
         + bonus (includes_str province normalizedQuery) 10
         + bonus (list_ex (\<lambda>word. startsWith word normalizedQuery) words) 30)"

definition sampleStation :: "string \<Rightarrow> string \<Rightarrow> string \<Rightarrow> Station" where
  "sampleStation n c p =
     \<lparr>station_id = ''THBAN'', station_name = n, station_city = c, station_province = p,
      station_country = ''Thailand'', station_lat = 0, station_lon = 0,
      station_company = TwelveGo\<rparr>"

text \<open>The bonus of one tier: the first of the name, city and province tests that holds.\<close>

definition firstOf :: "bool \<Rightarrow> int \<Rightarrow> bool \<Rightarrow> int \<Rightarrow> bool \<Rightarrow> int \<Rightarrow> int" where
  "firstOf a x b y c z = (if a then x else if b then y else if c then z else 0)"

text \<open>
  The bundled station data: the station list and the indexes by id and by city (objects
  used as dictionaries).
\<close>

record StationsData =
  data_stations :: "Station list"
  byId :: "string \<Rightarrow> Station option"
  byCity :: "string \<Rightarrow> string list option"

record City =
  city_name :: string
  city_province :: string
  city_country :: string
  stationCount :: nat
  city_stations :: "Station list"

definition getStationById :: "StationsData \<Rightarrow> string \<Rightarrow> Station option" where
  "getStationById data i = byId data i"

definition getStationsByCity :: "StationsData \<Rightarrow> string \<Rightarrow> Station list" where
  "getStationsByCity data city =
     (let ids = (case byCity data city of None \<Rightarrow> [] | Some l \<Rightarrow> l)
      in List.map_filter (byId data) ids)"

definition getCityInfo :: "StationsData \<Rightarrow> string \<Rightarrow> City option" where
  "getCityInfo data cityName =
     (case getStationsByCity data cityName of
        [] \<Rightarrow> None
      | first # others \<Rightarrow>
          Some \<lparr>city_name = cityName, city_province = station_province first,
                city_country = station_country first,
                stationCount = length (first # others),
                city_stations = first # others\<rparr>)"

section \<open>Filter engine (src/hooks/useSearch.ts)\<close>

datatype SortKey = SortPrice | SortDuration | SortDeparture

datatype SortOrder = Asc | Desc

record FilterState =
  priceRange :: "rat \<times> rat"
  departureTimeRange :: "int \<times> int"
  vehicleTypes :: "VehicleType list"
  operators :: "string list"
  sortBy :: SortKey
  sortOrder :: SortOrder

definition defaultFilters :: FilterState where
  "defaultFilters =
     \<lparr>priceRange = (0, 10000), departureTimeRange = (0, 24),
      vehicleTypes = [Bus, Ferry, Train], operators = [],
      sortBy = SortDeparture, sortOrder = Asc\<rparr>"

text \<open>The three filter predicates and the comparison function of applyFilters.\<close>

definition priceInRange :: "FilterState \<Rightarrow> TripOption \<Rightarrow> bool" where
  "priceInRange filters trip \<longleftrightarrow>
     amount (price trip) \<ge> fst (priceRange filters) \<and>
     amount (price trip) \<le> snd (priceRange filters)"

definition hourInRange :: "FilterState \<Rightarrow> TripOption \<Rightarrow> bool" where
  "hourInRange filters trip =
     (case parseInt (takeWhile (\<lambda>c. c \<noteq> CHR '':'') (departureTime trip)) of
        None \<Rightarrow> False
      | Some hour \<Rightarrow>
          hour \<ge> fst (departureTimeRange filters) \<and> hour < snd (departureTimeRange filters))"

text \<open>
  A comparison whose result is \<open>NaN\<close> (a duration that is \<open>NaN\<close>) counts as 0 in the
  sort.
\<close>

definition filterCompare ::
  "(string \<Rightarrow> string \<Rightarrow> int) \<Rightarrow> FilterState \<Rightarrow> TripOption \<Rightarrow> TripOption \<Rightarrow> rat" where
  "filterCompare localeCompare filters a b =
     (let comparison =
        (case sortBy filters of
           SortPrice \<Rightarrow> amount (price a) - amount (price b)
         | SortDuration \<Rightarrow>
             (case (duration a, duration b) of
                (Some x, Some y) \<Rightarrow> of_int (x - y)
              | _ \<Rightarrow> 0)
         | SortDeparture \<Rightarrow> of_int (localeCompare (departureTime a) (departureTime b)))
      in if sortOrder filters = Asc then comparison else - comparison)"

definition applyFilters ::
  "(string \<Rightarrow> string \<Rightarrow> int) \<Rightarrow> TripOption list \<Rightarrow> FilterState \<Rightarrow> TripOption list" where
  "applyFilters localeCompare results filters =
     (let filtered1 = filter (priceInRange filters) results;
          filtered2 = filter (hourInRange filters) filtered1;
          filtered3 = (if length (vehicleTypes filters) > 0
                       then filter (\<lambda>trip. vehicleType trip \<in> set (vehicleTypes filters))
                              filtered2
                       else filtered2);
          filtered4 = (if length (operators filters) > 0
                       then filter (\<lambda>trip. operator trip \<in> set (operators filters))
                              filtered3
                       else filtered3)
      in arraySort (filterCompare localeCompare filters) filtered4)"

section \<open>City-to-city search (src/app/api/search/route.ts, the station-based version)\<close>

text \<open>
  \<open>searchRoutes\<close> is the network call of the legacy adapter. Its outcome is a settled
  promise: fulfilled with a result, or rejected with an error whose message may be
  absent. The handler takes as a parameter the outcome of the call number \<open>k\<close> of the
  request (in the order in which the calls are issued), and the clock \<open>Date.now()\<close>.
\<close>

record SearchParams =
  sp_origin :: string
  sp_destination :: string
  sp_date :: string
  sp_company :: string

record SearchResult =
  sr_trips :: "TripOption list"
  sr_origin :: "Station option"
  sr_destination :: "Station option"
  sr_date :: string
  sr_searchId :: string

datatype Settled = Fulfilled SearchResult | Rejected "string option"

record SearchMeta =
  stationCombinations :: nat
  totalTripsFound :: nat
  uniqueTrips :: nat
  meta_errors :: "string list option"

record CitySearchBody =
  body_trips :: "TripOption list"
  body_originCity :: City
  body_destinationCity :: City
  body_date :: string
  body_searchId :: string
  body_meta :: SearchMeta

datatype StreamEvent =
  MetaEvent City City string string nat
| NewTripsEvent "TripOption list"
| ProgressEvent nat nat nat nat
| CompleteEvent SearchMeta

datatype ResponseBody =
  ErrorBody string
| CityBody CitySearchBody
| StationBody SearchResult
| StreamBody "StreamEvent list"

record HttpResponse =
  status :: nat
  body :: ResponseBody

record SearchRequest =
  q_originCity :: "string option"
  q_destinationCity :: "string option"
  q_origin :: "string option"
  q_destination :: "string option"
  q_date :: "string option"
  q_company :: "string option"
  q_stream :: "string option"

text \<open>A query parameter is truthy when it is present and not empty.\<close>

definition truthy :: "string option \<Rightarrow> bool" where
  "truthy p = (case p of None \<Rightarrow> False | Some s \<Rightarrow> s \<noteq> [])"

definition isDigit :: "char \<Rightarrow> bool" where
  "isDigit c \<longleftrightarrow> c \<in> set ''0123456789''"

text \<open>The test of \<open>/^\d{4}-\d{2}-\d{2}$/\<close>.\<close>

definition dateRegexTest :: "string \<Rightarrow> bool" where
  "dateRegexTest d \<longleftrightarrow>
     length d = 10 \<and> list_all isDigit (take 4 d) \<and> d ! 4 = CHR ''-'' \<and>
     list_all isDigit (take 2 (drop 5 d)) \<and> d ! 7 = CHR ''-'' \<and>
     list_all isDigit (drop 8 d)"

definition errorMessage :: "string option \<Rightarrow> string" where
  "errorMessage reason = (case reason of None \<Rightarrow> ''Search failed''
     | Some m \<Rightarrow> if m = [] then ''Search failed'' else m)"

text \<open>The station pairs: origin stations in the outer loop, destination stations inside.\<close>

definition searchPairs :: "City \<Rightarrow> City \<Rightarrow> (string \<times> string) list" where
  "searchPairs originCityInfo destCityInfo =
     concat (map (\<lambda>originStation.
        map (\<lambda>destStation. (station_id originStation, station_id destStation))
          (city_stations destCityInfo))
       (city_stations originCityInfo))"

text \<open>
  One batch: \<open>searchPairs.slice(i, i + CONCURRENCY)\<close> and the settled outcomes of its
  searches, in the order of the pairs.
\<close>

definition CONCURRENCY :: nat where
  "CONCURRENCY = 5"

definition batchResults ::
  "(nat \<Rightarrow> SearchParams \<Rightarrow> Settled) \<Rightarrow> string \<Rightarrow> string \<Rightarrow> (string \<times> string) list \<Rightarrow> nat \<Rightarrow>
   Settled list" where
  "batchResults searchRoutes date company pairs i =
     (let batch = take CONCURRENCY (drop i pairs)
      in map (\<lambda>(k, pair). searchRoutes k
                \<lparr>sp_origin = fst pair, sp_destination = snd pair, sp_date = date,
                 sp_company = company\<rparr>)
           (zip [i ..< i + length batch] batch))"

definition collectResult ::
  "TripOption list \<times> string list \<Rightarrow> Settled \<Rightarrow> TripOption list \<times> string list" where
  "collectResult acc result =
     (case result of
        Fulfilled v \<Rightarrow> (fst acc @ sr_trips v, snd acc)
      | Rejected reason \<Rightarrow> (fst acc, snd acc @ [errorMessage reason]))"

function fanOut ::
  "(nat \<Rightarrow> SearchParams \<Rightarrow> Settled) \<Rightarrow> string \<Rightarrow> string \<Rightarrow> (string \<times> string) list \<Rightarrow> nat \<Rightarrow>
   TripOption list \<times> string list \<Rightarrow> TripOption list \<times> string list" where
  "fanOut searchRoutes date company pairs i acc =
     (if i < length pairs
      then fanOut searchRoutes date company pairs (i + CONCURRENCY)
             (foldl collectResult acc (batchResults searchRoutes date company pairs i))
      else acc)"
  by pat_completeness auto
termination
  by (relation "measure (\<lambda>(s, d, c, pairs, i, acc). length pairs - i)")
     (auto simp: CONCURRENCY_def)

declare fanOut.simps [simp del]

text \<open>The streaming mode: the state of the loop and the events of one batch.\<close>

record StreamState =
  seenKeys :: "string list"
  completedSearches :: nat
  ss_totalTripsFound :: nat
  ss_errors :: "string list"
  newTrips :: "TripOption list"

definition streamTrip :: "(rat \<Rightarrow> string) \<Rightarrow> StreamState \<Rightarrow> TripOption \<Rightarrow> StreamState" where
  "streamTrip numStr st trip =
     (let st1 = st\<lparr>ss_totalTripsFound := ss_totalTripsFound st + 1\<rparr>;
          key = getTripKey numStr trip
      in if key \<notin> set (seenKeys st1)
         then st1\<lparr>seenKeys := seenKeys st1 @ [key], newTrips := newTrips st1 @ [trip]\<rparr>
         else st1)"

definition streamResult :: "(rat \<Rightarrow> string) \<Rightarrow> StreamState \<Rightarrow> Settled \<Rightarrow> StreamState" where
  "streamResult numStr st result =
     (let st1 = st\<lparr>completedSearches := completedSearches st + 1\<rparr>
      in case result of
           Fulfilled v \<Rightarrow> foldl (streamTrip numStr) st1 (sr_trips v)
         | Rejected reason \<Rightarrow> st1\<lparr>ss_errors := ss_errors st1 @ [errorMessage reason]\<rparr>)"

function streamLoop ::
  "(nat \<Rightarrow> SearchParams \<Rightarrow> Settled) \<Rightarrow> (rat \<Rightarrow> string) \<Rightarrow> (string \<Rightarrow> string \<Rightarrow> int) \<Rightarrow>
   string \<Rightarrow> string \<Rightarrow> (string \<times> string) list \<Rightarrow> nat \<Rightarrow>
   StreamState \<times> StreamEvent list \<Rightarrow> StreamState \<times> StreamEvent list" where
  "streamLoop searchRoutes numStr localeCompare date company pairs i acc =
     (if i < length pairs
      then
        (let st = foldl (streamResult numStr) ((fst acc)\<lparr>newTrips := []\<rparr>)
                    (batchResults searchRoutes date company pairs i);
             tripEvents =
               (if length (newTrips st) > 0
                then [NewTripsEvent (arraySort
                        (\<lambda>a b. localeCompare (departureTime a) (departureTime b)) (newTrips st))]
                else []);
             progress = ProgressEvent (completedSearches st) (length pairs)
                          (length (seenKeys st)) (ss_totalTripsFound st)
         in streamLoop searchRoutes numStr localeCompare date company pairs (i + CONCURRENCY)
              (st, snd acc @ tripEvents @ [progress]))
      else acc)"
  by pat_completeness auto
termination
  by (relation "measure (\<lambda>(s, n, l, d, c, pairs, i, acc). length pairs - i)")
     (auto simp: CONCURRENCY_def)

declare streamLoop.simps [simp del]

definition optionalErrors :: "string list \<Rightarrow> string list option" where
  "optionalErrors errors = (if length errors > 0 then Some errors else None)"

text \<open>
  The handler \<open>GET\<close>. A rejected search in the station-to-station branch is thrown by
  \<open>await\<close> and caught by the handler's \<open>catch\<close>, which answers 500.
\<close>

definition GET ::
  "StationsData \<Rightarrow> (nat \<Rightarrow> SearchParams \<Rightarrow> Settled) \<Rightarrow> (rat \<Rightarrow> string) \<Rightarrow>
   (string \<Rightarrow> string \<Rightarrow> int) \<Rightarrow> nat \<Rightarrow> SearchRequest \<Rightarrow> HttpResponse" where
  "GET data searchRoutes numStr localeCompare now request =
     (let company = (if truthy (q_company request) then the (q_company request) else ''12go'');
          stream = (q_stream request = Some ''true'')
      in if \<not> truthy (q_date request)
         then \<lparr>status = 400, body = ErrorBody ''Missing required parameter: date''\<rparr>
         else let date = the (q_date request) in
         if \<not> dateRegexTest date
         then \<lparr>status = 400, body = ErrorBody ''Invalid date format. Use YYYY-MM-DD''\<rparr>
         else if truthy (q_originCity request) \<and> truthy (q_destinationCity request)
         then
           (let originCity = the (q_originCity request);
                destinationCity = the (q_destinationCity request)
            in case getCityInfo data originCity of
                 None \<Rightarrow> \<lparr>status = 404, body = ErrorBody (''Origin city not found: '' @ originCity)\<rparr>
               | Some originCityInfo \<Rightarrow>
                  (case getCityInfo data destinationCity of
                     None \<Rightarrow> \<lparr>status = 404,
                              body = ErrorBody (''Destination city not found: '' @ destinationCity)\<rparr>
                   | Some destCityInfo \<Rightarrow>
                      (let pairs = searchPairs originCityInfo destCityInfo;
                           searchId = originCity @ ''-'' @ destinationCity @ ''-'' @ date @ ''-''
                                        @ decimal now
                       in if stream
                          then
                            (let start = \<lparr>seenKeys = [], completedSearches = 0,
                                          ss_totalTripsFound = 0, ss_errors = [], newTrips = []\<rparr>;
                                 meta = MetaEvent originCityInfo destCityInfo date searchId
                                          (length pairs);
                                 (st, events) = streamLoop searchRoutes numStr localeCompare date
                                                  company pairs 0 (start, [meta])
                             in \<lparr>status = 200,
                                 body = StreamBody (events @
                                   [CompleteEvent
                                      \<lparr>stationCombinations = length pairs,
                                       totalTripsFound = ss_totalTripsFound st,
                                       uniqueTrips = length (seenKeys st),
                                       meta_errors = optionalErrors (ss_errors st)\<rparr>])\<rparr>)
                          else
                            (let (allTrips, errors) =
                                   fanOut searchRoutes date company pairs 0 ([], []);
                                 uniqueTrips = arraySort
                                   (\<lambda>a b. localeCompare (departureTime a) (departureTime b))
                                   (deduplicateTrips numStr allTrips)
                             in \<lparr>status = 200,
                                 body = CityBody
                                   \<lparr>body_trips = uniqueTrips,
                                    body_originCity = originCityInfo,
                                    body_destinationCity = destCityInfo,
                                    body_date = date,
                                    body_searchId = searchId,
                                    body_meta =
                                      \<lparr>stationCombinations = length pairs,
                                       totalTripsFound = length allTrips,
                                       uniqueTrips = length uniqueTrips,
                                       meta_errors = optionalErrors errors\<rparr>\<rparr>\<rparr>))))
         else if \<not> truthy (q_origin request)
         then \<lparr>status = 400, body = ErrorBody ''Missing required parameter: origin or originCity''\<rparr>
         else if \<not> truthy (q_destination request)
         then \<lparr>status = 400,
               body = ErrorBody ''Missing required parameter: destination or destinationCity''\<rparr>
         else
           (case searchRoutes 0 \<lparr>sp_origin = the (q_origin request),
                                sp_destination = the (q_destination request),
                                sp_date = date, sp_company = company\<rparr> of
              Fulfilled result \<Rightarrow> \<lparr>status = 200, body = StationBody result\<rparr>
            | Rejected reason \<Rightarrow>
                \<lparr>status = 500, body = ErrorBody ''Search failed. Please try again.''\<rparr>))"

text \<open>
  The outcomes of all the searches of a request, pair by pair, and what one outcome
  contributes: its trips when fulfilled, one message when rejected.
\<close>

definition pairOutcomes ::
  "(nat \<Rightarrow> SearchParams \<Rightarrow> Settled) \<Rightarrow> string \<Rightarrow> string \<Rightarrow> (string \<times> string) list \<Rightarrow>
   Settled list" where
  "pairOutcomes searchRoutes date company pairs =
     map (\<lambda>k. searchRoutes k
            \<lparr>sp_origin = fst (pairs ! k), sp_destination = snd (pairs ! k), sp_date = date,
             sp_company = company\<rparr>)
       [0 ..< length pairs]"

fun fulfilledTrips :: "Settled \<Rightarrow> TripOption list" where
  "fulfilledTrips (Fulfilled v) = sr_trips v"
| "fulfilledTrips (Rejected reason) = []"

fun rejectedMessages :: "Settled \<Rightarrow> string list" where
  "rejectedMessages (Fulfilled v) = []"
| "rejectedMessages (Rejected reason) = [errorMessage reason]"

fun isRejected :: "Settled \<Rightarrow> bool" where
  "isRejected (Fulfilled v) = False"
| "isRejected (Rejected reason) = True"

text \<open>
  Scenario B of the specification for the examples: Bangkok has three stations, Phuket
  two; every search fails.
\<close>

definition sampleStationId :: "string \<Rightarrow> string \<Rightarrow> Station" where
  "sampleStationId i c =
     \<lparr>station_id = i, station_name = i, station_city = c, station_province = c,
      station_country = ''Thailand'', station_lat = 0, station_lon = 0,
      station_company = TwelveGo\<rparr>"

definition sampleData :: StationsData where
  "sampleData =
     \<lparr>data_stations =
        [sampleStationId ''B1'' ''Bangkok'', sampleStationId ''B2'' ''Bangkok'',
         sampleStationId ''B3'' ''Bangkok'', sampleStationId ''P1'' ''Phuket'',
         sampleStationId ''P2'' ''Phuket''],
      byId = map_of
        [(''B1'', sampleStationId ''B1'' ''Bangkok''), (''B2'', sampleStationId ''B2'' ''Bangkok''),
         (''B3'', sampleStationId ''B3'' ''Bangkok''), (''P1'', sampleStationId ''P1'' ''Phuket''),
         (''P2'', sampleStationId ''P2'' ''Phuket'')],
      byCity = map_of [(''Bangkok'', [''B1'', ''B2'', ''B3'']), (''Phuket'', [''P1'', ''P2''])]\<rparr>"

definition sampleRequest :: SearchRequest where
  "sampleRequest =
     \<lparr>q_originCity = Some ''Bangkok'', q_destinationCity = Some ''Phuket'', q_origin = None,
      q_destination = None, q_date = Some ''2025-06-01'', q_company = None, q_stream = None\<rparr>"

definition allFail :: "nat \<Rightarrow> SearchParams \<Rightarrow> Settled" where
  "allFail k params = Rejected (Some ''Search request timed out'')"

definition sampleCity :: "string \<Rightarrow> string list \<Rightarrow> City" where
  "sampleCity c ids =
     \<lparr>city_name = c, city_province = c, city_country = ''Thailand'',
      stationCount = length ids, city_stations = map (\<lambda>i. sampleStationId i c) ids\<rparr>"

section \<open>POI directory (src/lib/poi-loader.ts)\<close>

text \<open>
  The functions are modelled over the loaded directory, the list of POIs that
  \<open>loadPOIs\<close> returns. Of a station of a POI only the identifier, the name and the
  transportation type are represented, and the cache's time stamp, which no function
  reads, is left out.
\<close>

record PoiStation =
  ps_id :: string
  ps_name :: string
  ps_transportationType :: string














datatype Confidence = Exact | Normalized | Partial | NoConfidence

record Translation =
  poi :: string
  name :: string
  confidence :: Confidence



section \<open>Legacy station-keyed adapter (src/lib/api-client.ts)\<close>

text \<open>
  The payload is untyped JSON. An absent field is \<open>None\<close>; the numbers of a date or a
  time are natural numbers; the decimal strings and numbers of an amount are taken as
  the rationals that \<open>parseFloat\<close> reads from them. \<open>new Date(s).getTime()\<close> is a
  parameter \<open>dateParse\<close>: the milliseconds of the local reading of \<open>s\<close>, or \<open>None\<close> for
  an invalid date.
\<close>

record TCDateTime =
  dt_year :: "nat option"
  dt_month :: "nat option"
  dt_day :: "nat option"
  dt_hours :: "nat option"
  dt_minutes :: "nat option"

record SegmentKey =
  boarding_time :: "TCDateTime option"
  arrival_time :: "TCDateTime option"
  service_date :: "TCDateTime option"

record TotalAmount =
  units :: "rat option"
  nanos :: "rat option"
  currency_code :: "string option"

record ApiTripOption =
  booking_token :: "string option"
  total_amount :: "TotalAmount option"
  available_seat_count :: "int option"
  operator_name :: "string option"

text \<open>
  One element of \<open>itinerary_responses\<close>: the list \<open>itinerary.segment_keys\<close> and the list
  \<open>trip_option_set.trip_options\<close>, each empty when absent.
\<close>

record ItineraryResponse =
  segment_keys :: "SegmentKey list"
  trip_options :: "ApiTripOption list"

datatype JsError = TypeError

definition padStart2 :: "string \<Rightarrow> string" where
  "padStart2 s = replicate (2 - length s) CHR ''0'' @ s"

text \<open>\<open>x || d\<close> on an optional number and on an optional string.\<close>

definition orNat :: "nat option \<Rightarrow> nat \<Rightarrow> nat" where
  "orNat x d = (case x of None \<Rightarrow> d | Some n \<Rightarrow> if n = 0 then d else n)"

definition orString :: "string option \<Rightarrow> string \<Rightarrow> string" where
  "orString x d = (case x of None \<Rightarrow> d | Some s \<Rightarrow> if s = [] then d else s)"

definition formatTime :: "TCDateTime option \<Rightarrow> string" where
  "formatTime timeObj =
     (case timeObj of
        None \<Rightarrow> ''00:00''
      | Some t \<Rightarrow>
          padStart2 (decimal (orNat (dt_hours t) 0)) @ '':''
            @ padStart2 (decimal (orNat (dt_minutes t) 0)))"

definition formatDate :: "TCDateTime option \<Rightarrow> string" where
  "formatDate dateObj =
     (case dateObj of
        None \<Rightarrow> ''0000-00-00''
      | Some d \<Rightarrow>
          (case dt_year d of None \<Rightarrow> ''undefined'' | Some y \<Rightarrow> decimal y) @ ''-''
            @ padStart2 (decimal (orNat (dt_month d) 1)) @ ''-''
            @ padStart2 (decimal (orNat (dt_day d) 1)))"

definition calculatePrice :: "TotalAmount option \<Rightarrow> rat" where
  "calculatePrice amountObj =
     (case amountObj of
        None \<Rightarrow> 0
      | Some a \<Rightarrow>
          (case units a of None \<Rightarrow> 0 | Some u \<Rightarrow> u)
            + (case nanos a of None \<Rightarrow> 0 | Some n \<Rightarrow> n) / 1000000000)"

definition calculateDuration ::
  "(string \<Rightarrow> int option) \<Rightarrow> string \<Rightarrow> string \<Rightarrow> string \<Rightarrow> string \<Rightarrow> int option" where
  "calculateDuration dateParse depTime arrTime depDate arrDate =
     (case (dateParse (depDate @ ''T'' @ depTime @ '':00''),
            dateParse (arrDate @ ''T'' @ arrTime @ '':00'')) of
        (Some depDateTime, Some arrDateTime) \<Rightarrow>
          Some (round ((of_int (arrDateTime - depDateTime) :: rat) / 60000))
      | _ \<Rightarrow> None)"

definition inferVehicleType :: "string \<Rightarrow> VehicleType" where
  "inferVehicleType operatorName =
     (let name = toLowerCase operatorName
      in if includes_str name ''ferry'' \<or> includes_str name ''boat''
            \<or> includes_str name ''catamaran'' then Ferry
         else if includes_str name ''train'' \<or> includes_str name ''rail'' then Train
         else Bus)"

definition stationPlace :: "StationsData \<Rightarrow> string \<Rightarrow> TripPlace" where
  "stationPlace data i =
     (case getStationById data i of
        None \<Rightarrow> \<lparr>place_id = i, place_name = i, place_city = ''''\<rparr>
      | Some st \<Rightarrow>
          \<lparr>place_id = i,
           place_name = (if station_name st = [] then i else station_name st),
           place_city = station_city st\<rparr>)"

text \<open>
  The body of the inner loop for one trip option: \<open>None\<close> is \<open>continue\<close>, \<open>Inl\<close> the
  exception of \<open>bookingToken.slice\<close> on an absent token.
\<close>

definition legacyTrip ::
  "StationsData \<Rightarrow> (string \<Rightarrow> int option) \<Rightarrow> string \<Rightarrow> string \<Rightarrow> SegmentKey \<Rightarrow>
   ApiTripOption \<Rightarrow> (JsError + TripOption) option" where
  "legacyTrip data dateParse originId destId segmentKey opt =
     (let price = calculatePrice (total_amount opt)
      in if price \<le> 0 then None
         else
           (let currency = orString (case total_amount opt of None \<Rightarrow> None
                                      | Some a \<Rightarrow> currency_code a) ''THB'';
                availableSeats = (case available_seat_count opt of None \<Rightarrow> 0 | Some n \<Rightarrow> n);
                departureTime = formatTime (boarding_time segmentKey);
                arrivalTime = formatTime (arrival_time segmentKey);
                departureDate = formatDate (service_date segmentKey);
                arrivalDate = (let a = formatDate (arrival_time segmentKey)
                               in if a = [] then departureDate else a);
                operatorName = orString (operator_name opt) ''12Go Asia''
            in case booking_token opt of
                 None \<Rightarrow> Some (Inl TypeError)
               | Some token \<Rightarrow>
                   Some (Inr
                     \<lparr>trip_id = originId @ ''-'' @ destId @ ''-'' @ departureTime @ ''-''
                                 @ drop (length token - 8) token,
                      bookingToken = token,
                      departureTime = departureTime,
                      arrivalTime = arrivalTime,
                      departureDate = departureDate,
                      arrivalDate = arrivalDate,
                      duration = calculateDuration dateParse departureTime arrivalTime
                                   departureDate arrivalDate,
                      price = \<lparr>amount = price, currency = currency\<rparr>,
                      operator = operatorName,
                      operatorLogo = None,
                      vehicleType = inferVehicleType operatorName,
                      availableSeats = availableSeats,
                      amenities = [],
                      segments =
                        [\<lparr>seg_origin = stationPlace data originId,
                          seg_destination = stationPlace data destId,
                          seg_departureTime = departureTime,
                          seg_arrivalTime = arrivalTime,
                          seg_vehicleType = inferVehicleType operatorName,
                          seg_operator = operatorName\<rparr>],
                      origin = stationPlace data originId,
                      destination = stationPlace data destId\<rparr>)))"

text \<open>The inner loop over the trip options of one itinerary response, and the outer loop.\<close>

fun legacyOptions ::
  "StationsData \<Rightarrow> (string \<Rightarrow> int option) \<Rightarrow> string \<Rightarrow> string \<Rightarrow> SegmentKey \<Rightarrow>
   ApiTripOption list \<Rightarrow> TripOption list \<Rightarrow> JsError + TripOption list" where
  "legacyOptions data dateParse originId destId segmentKey [] trips = Inr trips"
| "legacyOptions data dateParse originId destId segmentKey (opt # opts) trips =
     (case legacyTrip data dateParse originId destId segmentKey opt of
        None \<Rightarrow> legacyOptions data dateParse originId destId segmentKey opts trips
      | Some (Inl e) \<Rightarrow> Inl e
      | Some (Inr trip) \<Rightarrow>
          legacyOptions data dateParse originId destId segmentKey opts (trips @ [trip]))"

fun legacyResponses ::
  "StationsData \<Rightarrow> (string \<Rightarrow> int option) \<Rightarrow> string \<Rightarrow> string \<Rightarrow>
   ItineraryResponse list \<Rightarrow> TripOption list \<Rightarrow> JsError + TripOption list" where
  "legacyResponses data dateParse originId destId [] trips = Inr trips"
| "legacyResponses data dateParse originId destId (itineraryResp # rest) trips =
     (case segment_keys itineraryResp of
        [] \<Rightarrow> legacyResponses data dateParse originId destId rest trips
      | segmentKey # others \<Rightarrow>
          (case legacyOptions data dateParse originId destId segmentKey
                  (trip_options itineraryResp) trips of
             Inl e \<Rightarrow> Inl e
           | Inr trips' \<Rightarrow> legacyResponses data dateParse originId destId rest trips'))"

definition parseApiResponse ::
  "StationsData \<Rightarrow> (string \<Rightarrow> int option) \<Rightarrow> (string \<Rightarrow> string \<Rightarrow> int) \<Rightarrow>
   ItineraryResponse list \<Rightarrow> string \<Rightarrow> string \<Rightarrow> string \<Rightarrow> Company \<Rightarrow>
   JsError + TripOption list" where
  "parseApiResponse data dateParse localeCompare itineraryResponses originId destId date company =
     (case legacyResponses data dateParse originId destId itineraryResponses [] of
        Inl e \<Rightarrow> Inl e
      | Inr trips \<Rightarrow>
          Inr (arraySort (\<lambda>a b. localeCompare (departureTime a) (departureTime b)) trips))"

text \<open>
  The difference of the clock times of a trip, as calculateDuration computes it from the
  trip's own dates and times.
\<close>

definition clockDuration :: "(string \<Rightarrow> int option) \<Rightarrow> TripOption \<Rightarrow> int option" where
  "clockDuration dateParse trip =
     calculateDuration dateParse (departureTime trip) (arrivalTime trip)
       (departureDate trip) (arrivalDate trip)"

text \<open>
  A \<open>Date\<close> constructor for the examples: the reading of \<open>YYYY-MM-DDTHH:MM:00\<close> in a
  zone at a fixed offset from UTC, in milliseconds.
\<close>

definition daysFromCivil :: "int \<Rightarrow> int \<Rightarrow> int \<Rightarrow> int" where
  "daysFromCivil y m d =
     (let y' = (if m \<le> 2 then y - 1 else y);
          era = y' div 400;
          yoe = y' - era * 400;
          doy = (153 * (m + (if m > 2 then - 3 else 9)) + 2) div 5 + d - 1;
          doe = yoe * 365 + yoe div 4 - yoe div 100 + doy
      in era * 146097 + doe - 719468)"

definition sampleDateParse :: "string \<Rightarrow> int option" where
  "sampleDateParse s =
     (if length s = 19 \<and> list_all isDigit (take 4 s) \<and> list_all isDigit (take 2 (drop 5 s))
         \<and> list_all isDigit (take 2 (drop 8 s)) \<and> list_all isDigit (take 2 (drop 11 s))
         \<and> list_all isDigit (take 2 (drop 14 s)) \<and> s ! 4 = CHR ''-'' \<and> s ! 7 = CHR ''-''
         \<and> s ! 10 = CHR ''T'' \<and> s ! 13 = CHR '':'' \<and> drop 16 s = '':00''
      then Some ((daysFromCivil (int (digitsValue 10 (take 4 s)))
                    (int (digitsValue 10 (take 2 (drop 5 s))))
                    (int (digitsValue 10 (take 2 (drop 8 s)))) * 1440
                  + int (digitsValue 10 (take 2 (drop 11 s))) * 60
                  + int (digitsValue 10 (take 2 (drop 14 s)))) * 60000)
      else None)"

text \<open>Helpers that read a result of the adapter, for the examples.\<close>

definition timeAndPrice :: "TripOption \<Rightarrow> string \<times> rat" where
  "timeAndPrice trip = (departureTime trip, amount (price trip))"

definition timesAndPrices :: "JsError + TripOption list \<Rightarrow> (string \<times> rat) list" where
  "timesAndPrices r = (case r of Inl e \<Rightarrow> [] | Inr trips \<Rightarrow> map timeAndPrice trips)"

definition sampleKey :: "nat \<Rightarrow> nat \<Rightarrow> SegmentKey" where
  "sampleKey h1 h2 =
     \<lparr>boarding_time = Some \<lparr>dt_year = Some 2025, dt_month = Some 6, dt_day = Some 1,
                              dt_hours = Some h1, dt_minutes = Some 0\<rparr>,
      arrival_time = Some \<lparr>dt_year = Some 2025, dt_month = Some 6, dt_day = Some 1,
                             dt_hours = Some h2, dt_minutes = Some 30\<rparr>,
      service_date = Some \<lparr>dt_year = Some 2025, dt_month = Some 6, dt_day = Some 1,
                             dt_hours = None, dt_minutes = None\<rparr>\<rparr>"

definition sampleOption :: "rat \<Rightarrow> ApiTripOption" where
  "sampleOption p =
     \<lparr>booking_token = Some ''token-0123456789'',
      total_amount = Some \<lparr>units = Some p, nanos = Some 0, currency_code = Some ''THB''\<rparr>,
      available_seat_count = Some 12, operator_name = Some ''Lomprayah Ferry''\<rparr>"

definition sampleLegacyResponse :: "ItineraryResponse list" where
  "sampleLegacyResponse =
     [\<lparr>segment_keys = [sampleKey 14 18], trip_options = [sampleOption 30]\<rparr>,
      \<lparr>segment_keys = [sampleKey 8 10], trip_options = [sampleOption 20, sampleOption 10]\<rparr>]"

section \<open>POI-keyed adapter (src/lib/tc-api-client.ts)\<close>

text \<open>
  Of the payload the fields that the adapter reads are represented. The amount of a price
  is the rational that \<open>parseFloat\<close> reads from its decimal string.
\<close>

record TCVehicle =
  v_id :: string
  v_operating_carrier_name :: string
  v_image_url :: "string option"

record TCSegment =
  s_id :: string
  from_station :: string
  to_station :: string
  s_departure_time :: string
  s_arrival_time :: string
  travel_duration :: string
  vehicle_id :: string
  s_operating_carrier_id :: string
  transportation_types :: "string list"

record TCPrice =
  p_currency :: string
  p_amount :: rat

record TCItinerary =
  it_id :: string
  departure_segments :: "string list"
  number_of_available_seats :: int
  gross_price :: TCPrice

record TCApiResponse =
  vehicles :: "TCVehicle list"
  tc_segments :: "TCSegment list"
  itineraries :: "TCItinerary list"

text \<open>
  \<open>duration.match(/PT(?:(\d+)H)?(?:(\d+)M)?/)\<close>: the match starts at the first \<open>PT\<close> of
  the string; a group is the digits that stand directly before its letter, and is
  undefined when there are none.
\<close>

fun afterPT :: "string \<Rightarrow> string option" where
  "afterPT [] = None"
| "afterPT [c] = None"
| "afterPT (c # d # s) = (if c = CHR ''P'' \<and> d = CHR ''T'' then Some s else afterPT (d # s))"

definition digitsBefore :: "char \<Rightarrow> string \<Rightarrow> (string \<times> string) option" where
  "digitsBefore letter s =
     (let ds = takeWhile isDigit s; r = dropWhile isDigit s
      in if ds \<noteq> [] \<and> r \<noteq> [] \<and> hd r = letter then Some (ds, tl r) else None)"

text \<open>The sum of two numbers either of which may be \<open>NaN\<close>.\<close>

definition addNum :: "int option \<Rightarrow> int option \<Rightarrow> int option" where
  "addNum a b = (case (a, b) of (Some x, Some y) \<Rightarrow> Some (x + y) | _ \<Rightarrow> None)"

definition parseDuration :: "string \<Rightarrow> int option" where
  "parseDuration d =
     (case afterPT d of
        None \<Rightarrow> Some 0
      | Some s \<Rightarrow>
          (let g1 = digitsBefore CHR ''H'' s;
               s' = (case g1 of None \<Rightarrow> s | Some (ds, r) \<Rightarrow> r);
               g2 = digitsBefore CHR ''M'' s';
               hours = parseInt (case g1 of None \<Rightarrow> ''0'' | Some (ds, r) \<Rightarrow> ds);
               minutes = parseInt (case g2 of None \<Rightarrow> ''0'' | Some (ds, r) \<Rightarrow> ds)
           in addNum (case hours of None \<Rightarrow> None | Some h \<Rightarrow> Some (h * 60)) minutes))"

definition mapVehicleType :: "string list \<Rightarrow> VehicleType" where
  "mapVehicleType transportationTypes =
     (let types = map toLowerCase transportationTypes
      in if list_ex (\<lambda>t. includes_str t ''ferry'' \<or> includes_str t ''boat''
                          \<or> includes_str t ''catamaran'') types then Ferry
         else if list_ex (\<lambda>t. includes_str t ''train'' \<or> includes_str t ''rail'') types then Train
         else Bus)"

text \<open>
  \<open>isoDateTime.split("T")\<close>: element 0 is the text before the first \<open>T\<close>, element 1 the
  text between the first and the second \<open>T\<close>, undefined without a \<open>T\<close>.
\<close>

definition extractTime :: "string \<Rightarrow> string" where
  "extractTime isoDateTime =
     (let r = dropWhile (\<lambda>c. c \<noteq> CHR ''T'') isoDateTime
      in if r = [] then ''00:00''
         else (let timePart = takeWhile (\<lambda>c. c \<noteq> CHR ''T'') (tl r)
               in if timePart = [] then ''00:00'' else take 5 timePart))"

definition extractDate :: "string \<Rightarrow> string" where
  "extractDate isoDateTime = takeWhile (\<lambda>c. c \<noteq> CHR ''T'') isoDateTime"

definition parseStationName :: "string \<Rightarrow> string" where
  "parseStationName stationId = stationId"

definition vehicleMap :: "TCApiResponse \<Rightarrow> string \<Rightarrow> TCVehicle option" where
  "vehicleMap data = foldl (\<lambda>m v. m(v_id v \<mapsto> v)) Map.empty (vehicles data)"

definition segmentMap :: "TCApiResponse \<Rightarrow> string \<Rightarrow> TCSegment option" where
  "segmentMap data = foldl (\<lambda>m s. m(s_id s \<mapsto> s)) Map.empty (tc_segments data)"

definition itinerarySegments :: "TCApiResponse \<Rightarrow> TCItinerary \<Rightarrow> TCSegment list" where
  "itinerarySegments data itinerary =
     List.map_filter (segmentMap data) (departure_segments itinerary)"

definition totalDuration :: "TCSegment list \<Rightarrow> int option" where
  "totalDuration segs = foldl (\<lambda>sum seg. addNum sum (parseDuration (travel_duration seg))) (Some 0) segs"

definition carrierName :: "TCVehicle option \<Rightarrow> string \<Rightarrow> string" where
  "carrierName vehicle carrierId =
     (case vehicle of
        None \<Rightarrow> carrierId
      | Some v \<Rightarrow> if v_operating_carrier_name v = [] then carrierId
                  else v_operating_carrier_name v)"

definition tripSegment :: "TCApiResponse \<Rightarrow> string \<Rightarrow> string \<Rightarrow> TCSegment \<Rightarrow> TripSegment" where
  "tripSegment data departurePoi arrivalPoi seg =
     \<lparr>seg_origin = \<lparr>place_id = from_station seg,
                      place_name = parseStationName (from_station seg),
                      place_city = departurePoi\<rparr>,
      seg_destination = \<lparr>place_id = to_station seg,
                           place_name = parseStationName (to_station seg),
                           place_city = arrivalPoi\<rparr>,
      seg_departureTime = extractTime (s_departure_time seg),
      seg_arrivalTime = extractTime (s_arrival_time seg),
      seg_vehicleType = mapVehicleType (transportation_types seg),
      seg_operator = carrierName (vehicleMap data (vehicle_id seg)) (s_operating_carrier_id seg)\<rparr>"

text \<open>The body of the loop over the itineraries: \<open>None\<close> is \<open>continue\<close>.\<close>

definition itineraryTrip ::
  "TCApiResponse \<Rightarrow> string \<Rightarrow> string \<Rightarrow> TCItinerary \<Rightarrow> TripOption option" where
  "itineraryTrip data departurePoi arrivalPoi itinerary =
     (case itinerarySegments data itinerary of
        [] \<Rightarrow> None
      | firstSegment # others \<Rightarrow>
          (let lastSegment = last (firstSegment # others);
               vehicle = vehicleMap data (vehicle_id firstSegment)
           in Some
             \<lparr>trip_id = it_id itinerary,
              bookingToken = it_id itinerary,
              departureTime = extractTime (s_departure_time firstSegment),
              arrivalTime = extractTime (s_arrival_time lastSegment),
              departureDate = extractDate (s_departure_time firstSegment),
              arrivalDate = extractDate (s_arrival_time lastSegment),
              duration = totalDuration (firstSegment # others),
              price = \<lparr>amount = p_amount (gross_price itinerary),
                       currency = p_currency (gross_price itinerary)\<rparr>,
              operator = carrierName vehicle (s_operating_carrier_id firstSegment),
              operatorLogo = (case vehicle of None \<Rightarrow> None | Some v \<Rightarrow> v_image_url v),
              vehicleType = mapVehicleType (transportation_types firstSegment),
              availableSeats = number_of_available_seats itinerary,
              amenities = [],
              segments = map (tripSegment data departurePoi arrivalPoi) (firstSegment # others),
              origin = \<lparr>place_id = from_station firstSegment,
                        place_name = parseStationName (from_station firstSegment),
                        place_city = departurePoi\<rparr>,
              destination = \<lparr>place_id = to_station lastSegment,
                             place_name = parseStationName (to_station lastSegment),
                             place_city = arrivalPoi\<rparr>\<rparr>))"

definition tripCompare :: "(string \<Rightarrow> string \<Rightarrow> int) \<Rightarrow> TripOption \<Rightarrow> TripOption \<Rightarrow> rat" where
  "tripCompare localeCompare a b =
     (let timeCompare = localeCompare (departureTime a) (departureTime b)
      in if timeCompare \<noteq> 0 then of_int timeCompare
         else amount (price a) - amount (price b))"

definition parseItinerariesResponse ::
  "(string \<Rightarrow> string \<Rightarrow> int) \<Rightarrow> TCApiResponse \<Rightarrow> string \<Rightarrow> string \<Rightarrow> TripOption list" where
  "parseItinerariesResponse localeCompare data departurePoi arrivalPoi =
     arraySort (tripCompare localeCompare)
       (List.map_filter (itineraryTrip data departurePoi arrivalPoi) (itineraries data))"

text \<open>
  An answer of the itinerary API for the examples: a trip with a connection (two hours,
  a wait of two hours, one hour) and two direct buses at the same time.
\<close>

definition sampleSegment :: "string \<Rightarrow> string \<Rightarrow> string \<Rightarrow> string \<Rightarrow> TCSegment" where
  "sampleSegment i dep arr dur =
     \<lparr>s_id = i, from_station = ''THBANBSF'', to_station = ''THPHUBST'',
      s_departure_time = dep, s_arrival_time = arr, travel_duration = dur,
      vehicle_id = ''V1'', s_operating_carrier_id = ''C1'', transportation_types = [''Bus'']\<rparr>"

definition sampleItinerary :: "string \<Rightarrow> string list \<Rightarrow> rat \<Rightarrow> TCItinerary" where
  "sampleItinerary i segs p =
     \<lparr>it_id = i, departure_segments = segs, number_of_available_seats = 9,
      gross_price = \<lparr>p_currency = ''USD'', p_amount = p\<rparr>\<rparr>"

definition sampleItineraries :: TCApiResponse where
  "sampleItineraries =
     \<lparr>vehicles = [\<lparr>v_id = ''V1'', v_operating_carrier_name = ''Lomprayah'', v_image_url = None\<rparr>],
      tc_segments =
        [sampleSegment ''S1'' ''2026-01-15T08:00'' ''2026-01-15T10:00'' ''PT2H'',
         sampleSegment ''S2'' ''2026-01-15T12:00'' ''2026-01-15T13:00'' ''PT1H'',
         sampleSegment ''S3'' ''2026-01-15T07:30'' ''2026-01-15T13:00'' ''PT5H30M'',
         sampleSegment ''S4'' ''2026-01-15T07:30'' ''2026-01-15T12:30'' ''PT5H''],
      itineraries =
        [sampleItinerary ''I1'' [''S1'', ''S2''] 25,
         sampleItinerary ''I2'' [''S3''] 18,
         sampleItinerary ''I3'' [''S4''] 12,
         sampleItinerary ''I4'' [''S9''] 5]\<rparr>"

definition sampleModernRun :: "TripOption list" where
  "sampleModernRun = parseItinerariesResponse codeUnitCompare sampleItineraries ''THBAN'' ''THPHU''"

definition sampleLegacyRun :: "JsError + TripOption list" where
  "sampleLegacyRun =
     parseApiResponse sampleData sampleDateParse codeUnitCompare sampleLegacyResponse
       ''B1'' ''P1'' ''2025-06-01'' TwelveGo"

section \<open>Properties of the stable sort\<close>

lemma set_arrayInsert: "set (arrayInsert cmp x ys) = insert x (set ys)"
  by (induction ys) auto

lemma length_arrayInsert: "length (arrayInsert cmp x ys) = Suc (length ys)"
  by (induction ys) auto

lemma set_arraySort: "set (arraySort cmp xs) = set xs"
  by (induction xs) (simp_all add: arraySort_def set_arrayInsert)

lemma length_arraySort: "length (arraySort cmp xs) = length xs"
  by (induction xs) (simp_all add: arraySort_def length_arrayInsert)

lemma sorted_arrayInsert:
  assumes "consistentCmp cmp" and "sorted_wrt (\<lambda>a b. cmp a b \<le> 0) ys"
  shows "sorted_wrt (\<lambda>a b. cmp a b \<le> 0) (arrayInsert cmp x ys)"
  using assms(2)
proof (induction ys)
  case Nil
  then show ?case by simp
next
  case (Cons y ys)
  from assms(1) have "\<And>a b. cmp a b > 0 \<Longrightarrow> cmp b a < 0"
    and trans: "\<And>a b c. cmp a b \<le> 0 \<Longrightarrow> cmp b c \<le> 0 \<Longrightarrow> cmp a c \<le> 0"
    unfolding consistentCmp_def by blast+
  then have swap: "\<And>a b. cmp a b > 0 \<Longrightarrow> cmp b a \<le> 0"
    using less_imp_le by blast
  show ?case
  proof (cases "cmp x y > 0")
    case True
    with Cons swap[OF True] show ?thesis by (auto simp: set_arrayInsert)
  next
    case False
    then have xy: "cmp x y \<le> 0" by simp
    have "cmp x z \<le> 0" if "z \<in> set ys" for z
      using trans[OF xy] Cons.prems that by auto
    with False xy Cons.prems show ?thesis by auto
  qed
qed

lemma sorted_arraySort:
  "consistentCmp cmp \<Longrightarrow> sorted_wrt (\<lambda>a b. cmp a b \<le> 0) (arraySort cmp xs)"
  by (induction xs) (simp_all add: arraySort_def sorted_arrayInsert)

lemma arraySort_Cons: "arraySort cmp (x # xs) = arrayInsert cmp x (arraySort cmp xs)"
  by (simp add: arraySort_def)

section \<open>Properties of comparison functions\<close>

lemma codeUnitCompare_range: "codeUnitCompare a b \<in> {-1, 0, 1}"
  by (induction a b rule: codeUnitCompare.induct) auto

lemma codeUnitCompare_swap: "codeUnitCompare a b > 0 \<longleftrightarrow> codeUnitCompare b a < 0"
  by (induction a b rule: codeUnitCompare.induct) auto

lemma codeUnitCompare_trans:
  "codeUnitCompare a b \<le> 0 \<Longrightarrow> codeUnitCompare b c \<le> 0 \<Longrightarrow> codeUnitCompare a c \<le> 0"
proof (induction a b arbitrary: c rule: codeUnitCompare.induct)
  case 1
  then show ?case by simp
next
  case (2 y ys)
  then show ?case by (cases c) simp_all
next
  case (3 x xs)
  then show ?case by simp
next
  case (4 x xs y ys)
  show ?case
  proof (cases c)
    case Nil
    with 4 show ?thesis by simp
  next
    case (Cons z zs)
    with "4.prems" "4.IH"[of zs] show ?thesis
      by (auto split: if_splits)
  qed
qed

lemma consistentCmp_codeUnitCompare: "consistentCmp codeUnitCompare"
  unfolding consistentCmp_def using codeUnitCompare_swap codeUnitCompare_trans by blast


lemma consistentCmp_key: "consistentCmp cmp \<Longrightarrow> consistentCmp (\<lambda>a b. cmp (f a) (f b))"
  unfolding consistentCmp_def by blast

section \<open>Properties of the insertion-ordered map\<close>

lemma map_of_map_set: "map_of (map_set m k v) k' = (if k' = k then Some v else map_of m k')"
  by (induction m) auto

lemma fst_map_set_absent: "map_of m k = None \<Longrightarrow> map (fst) (map_set m k v) = map fst m @ [k]"
  by (induction m) (auto split: if_splits)

lemma fst_map_set_present: "map_of m k = Some w \<Longrightarrow> map fst (map_set m k v) = map fst m"
  by (induction m) (auto split: if_splits)

lemma map_set_absent: "map_of m k = None \<Longrightarrow> map_set m k v = m @ [(k, v)]"
  by (induction m) (auto split: if_splits)

lemma set_map_set_subset: "set (map_set m k v) \<subseteq> insert (k, v) (set m)"
  by (induction m) (auto split: if_splits)

lemma set_map_set_present:
  "distinct (map fst m) \<Longrightarrow> map_of m k = Some w \<Longrightarrow>
   set (map_set m k v) = insert (k, v) (set m - {(k, w)})"
proof (induction m)
  case Nil
  then show ?case by simp
next
  case (Cons p m)
  obtain k' v' where p: "p = (k', v')" by (cases p)
  show ?case
  proof (cases "k' = k")
    case True
    with Cons.prems p have "w = v'" "k \<notin> fst ` set m" by auto
    then have "(k, v') \<notin> set m" by force
    with True p \<open>w = v'\<close> show ?thesis by auto
  next
    case False
    with Cons p show ?thesis by auto
  qed
qed

lemma map_of_None_iff_fst: "map_of m k = None \<longleftrightarrow> k \<notin> set (map fst m)"
  by (simp add: map_of_eq_None_iff)

section \<open>Properties of deduplicateTrips\<close>

lemma find_append:
  "find P (xs @ ys) = (case find P xs of None \<Rightarrow> find P ys | Some x \<Rightarrow> Some x)"
  by (induction xs) auto

lemma find_None_iff_set: "find P xs = None \<longleftrightarrow> (\<forall>x \<in> set xs. \<not> P x)"
  by (induction xs) auto

lemma heldOK_other: "heldOK f g xs k v \<Longrightarrow> f x \<noteq> k \<Longrightarrow> heldOK f g (xs @ [x]) k v"
  by (auto simp: heldOK_def find_append)

lemma heldOK_new:
  assumes "\<forall>t \<in> set xs. f t \<noteq> k" and "f x = k"
  shows "heldOK f g (xs @ [x]) k x"
proof -
  have "find (\<lambda>t. f t = k \<and> g t = g x) xs = None"
    using assms(1) by (simp add: find_None_iff_set)
  with assms show ?thesis by (auto simp: heldOK_def find_append)
qed

lemma heldOK_replace:
  assumes "heldOK f g xs k e" and "f x = k" and "g x > g e"
  shows "heldOK f g (xs @ [x]) k x"
proof -
  from assms(1) have le: "\<forall>t \<in> set xs. f t = k \<longrightarrow> g t \<le> g e"
    by (simp add: heldOK_def)
  with assms(3) have "\<forall>t \<in> set xs. \<not> (f t = k \<and> g t = g x)" by fastforce
  then have "find (\<lambda>t. f t = k \<and> g t = g x) xs = None"
    by (simp add: find_None_iff_set)
  moreover from le assms(3) have "\<forall>t \<in> set xs. f t = k \<longrightarrow> g t \<le> g x" by fastforce
  ultimately show ?thesis using assms(2) by (auto simp: heldOK_def find_append)
qed

lemma heldOK_keep:
  assumes "heldOK f g xs k e" and "f x = k" and "\<not> g x > g e"
  shows "heldOK f g (xs @ [x]) k e"
  using assms by (auto simp: heldOK_def find_append)

lemma dedupInvI:
  "distinct (map fst seen) \<Longrightarrow> fst ` set seen = getTripKey numStr ` set xs \<Longrightarrow>
   (\<And>p. p \<in> set seen \<Longrightarrow> heldOK (getTripKey numStr) availableSeats xs (fst p) (snd p)) \<Longrightarrow>
   dedupInv numStr xs seen"
  unfolding dedupInv_def by simp

lemma dedupInv_Nil: "dedupInv numStr [] []"
  by (simp add: dedupInv_def)

lemma dedupInv_step:
  assumes inv: "dedupInv numStr xs seen"
  shows "dedupInv numStr (xs @ [x]) (dedupStep numStr seen x)"
proof -
  let ?key = "getTripKey numStr"
  define k where "k = ?key x"
  from inv have dist: "distinct (map fst seen)"
    and keys: "fst ` set seen = ?key ` set xs"
    and ent: "\<And>p. p \<in> set seen \<Longrightarrow> heldOK ?key availableSeats xs (fst p) (snd p)"
    unfolding dedupInv_def by simp_all
  have kx: "?key x = k" by (simp add: k_def)
  have keys': "insert k (fst ` set seen) = ?key ` set (xs @ [x])"
    by (simp add: keys kx)
  have other: "heldOK ?key availableSeats (xs @ [x]) (fst p) (snd p)"
    if "p \<in> set seen" "fst p \<noteq> k" for p
  proof -
    from that(2) kx have "?key x \<noteq> fst p" by simp
    with ent[OF that(1)] show ?thesis by (rule heldOK_other)
  qed
  show ?thesis
  proof (cases "map_of seen k")
    case None
    then have step: "dedupStep numStr seen x = seen @ [(k, x)]"
      by (simp add: dedupStep_def map_set_absent k_def)
    from None have notin: "k \<notin> fst ` set seen"
      by (simp add: map_of_eq_None_iff)
    have fresh: "\<forall>t \<in> set xs. ?key t \<noteq> k"
    proof
      fix t assume "t \<in> set xs"
      then have "?key t \<in> fst ` set seen" unfolding keys by (rule imageI)
      with notin show "?key t \<noteq> k" by auto
    qed
    have new: "heldOK ?key availableSeats (xs @ [x]) k x"
      using fresh kx by (rule heldOK_new)
    show ?thesis
      unfolding step
    proof (rule dedupInvI)
      show "distinct (map fst (seen @ [(k, x)]))" using dist notin by simp
      show "fst ` set (seen @ [(k, x)]) = ?key ` set (xs @ [x])"
        using keys' by simp
      fix p assume p: "p \<in> set (seen @ [(k, x)])"
      show "heldOK ?key availableSeats (xs @ [x]) (fst p) (snd p)"
      proof (cases "p = (k, x)")
        case True
        with new show ?thesis by simp
      next
        case False
        with p have ps: "p \<in> set seen" by simp
        then have "fst p \<in> fst ` set seen" by (rule imageI)
        with notin have "fst p \<noteq> k" by auto
        with ps show ?thesis by (rule other)
      qed
    qed
  next
    case (Some e)
    then have mem: "(k, e) \<in> set seen" by (rule map_of_SomeD)
    from ent[OF mem] have held: "heldOK ?key availableSeats xs k e" by simp
    have uniq: "snd p = e" if "p \<in> set seen" "fst p = k" for p
    proof -
      have "(k, snd p) = p" by (simp add: prod_eq_iff that(2))
      with that(1) have "(k, snd p) \<in> set seen" by simp
      with dist have "map_of seen k = Some (snd p)" by (rule map_of_is_SomeI)
      with Some show ?thesis by simp
    qed
    have "k \<in> fst ` set seen" using mem by (rule rev_image_eqI) simp
    then have "insert k (fst ` set seen) = fst ` set seen" by (rule insert_absorb)
    with keys' have kin: "fst ` set seen = ?key ` set (xs @ [x])" by simp
    show ?thesis
    proof (cases "availableSeats x > availableSeats e")
      case True
      then have step: "dedupStep numStr seen x = map_set seen k x"
        using Some by (simp add: dedupStep_def k_def)
      have fsts: "map fst (map_set seen k x) = map fst seen"
        using Some by (rule fst_map_set_present)
      have sets: "set (map_set seen k x) = insert (k, x) (set seen - {(k, e)})"
        using dist Some by (rule set_map_set_present)
      have new: "heldOK ?key availableSeats (xs @ [x]) k x"
        using held kx True by (rule heldOK_replace)
      have img: "fst ` set (map_set seen k x) = fst ` set seen"
      proof -
        have "set (map fst (map_set seen k x)) = set (map fst seen)" by (simp only: fsts)
        then show ?thesis by simp
      qed
      show ?thesis
        unfolding step
      proof (rule dedupInvI)
        show "distinct (map fst (map_set seen k x))" using dist by (simp only: fsts)
        show "fst ` set (map_set seen k x) = ?key ` set (xs @ [x])"
          using kin by (simp only: img)
        fix p assume p: "p \<in> set (map_set seen k x)"
        show "heldOK ?key availableSeats (xs @ [x]) (fst p) (snd p)"
        proof (cases "p = (k, x)")
          case True
          with new show ?thesis by simp
        next
          case False
          with p have ps: "p \<in> set seen" and ne: "p \<noteq> (k, e)"
            unfolding sets by simp_all
          have "fst p \<noteq> k"
          proof
            assume fk: "fst p = k"
            from uniq[OF ps fk] fk have "p = (k, e)" by (simp add: prod_eq_iff)
            with ne show False by simp
          qed
          with ps show ?thesis by (rule other)
        qed
      qed
    next
      case False
      then have step: "dedupStep numStr seen x = seen"
        using Some by (simp add: dedupStep_def k_def)
      have keep: "heldOK ?key availableSeats (xs @ [x]) k e"
        using held kx False by (rule heldOK_keep)
      show ?thesis
        unfolding step
      proof (rule dedupInvI)
        show "distinct (map fst seen)" by (rule dist)
        show "fst ` set seen = ?key ` set (xs @ [x])" by (rule kin)
        fix p assume ps: "p \<in> set seen"
        show "heldOK ?key availableSeats (xs @ [x]) (fst p) (snd p)"
        proof (cases "fst p = k")
          case True
          with uniq[OF ps True] keep show ?thesis by simp
        next
          case False
          with ps show ?thesis by (rule other)
        qed
      qed
    qed
  qed
qed

lemma dedupInv_foldl: "dedupInv numStr xs (foldl (dedupStep numStr) [] xs)"
  by (induction xs rule: rev_induct) (simp_all add: dedupInv_Nil dedupInv_step)


lemma dedup_values_keys:
  assumes "dedupInv numStr xs seen"
  shows "map (getTripKey numStr) (map_values seen) = map fst seen"
proof -
  have "getTripKey numStr (snd p) = fst p" if "p \<in> set seen" for p
    using assms that by (simp add: dedupInv_def heldOK_def)
  then show ?thesis by (simp add: map_values_def)
qed

lemma foldl_dedupStep_fresh:
  "distinct (map (getTripKey numStr) xs) \<Longrightarrow>
   getTripKey numStr ` set xs \<inter> fst ` set seen = {} \<Longrightarrow>
   foldl (dedupStep numStr) seen xs = seen @ map (\<lambda>t. (getTripKey numStr t, t)) xs"
proof (induction xs arbitrary: seen)
  case Nil
  then show ?case by simp
next
  case (Cons x xs)
  from Cons.prems(2) have "getTripKey numStr x \<notin> fst ` set seen" by auto
  then have none: "map_of seen (getTripKey numStr x) = None"
    by (simp add: map_of_eq_None_iff)
  then have step: "dedupStep numStr seen x = seen @ [(getTripKey numStr x, x)]"
    by (simp add: dedupStep_def map_set_absent)
  have "getTripKey numStr ` set xs \<inter> fst ` set (seen @ [(getTripKey numStr x, x)]) = {}"
    using Cons.prems by auto
  with Cons.IH[of "seen @ [(getTripKey numStr x, x)]"] Cons.prems(1) step
  show ?case by simp
qed

lemma deduplicateTrips_distinct_keys_id:
  "distinct (map (getTripKey numStr) xs) \<Longrightarrow> deduplicateTrips numStr xs = xs"
  using foldl_dedupStep_fresh[of numStr xs "[]"]
  by (simp add: deduplicateTrips_def map_values_def comp_def)



text \<open>
  Claim C7. deduplicateTrips is idempotent: deduplicating a deduplicated list returns
  the same list, for every list of trips.
\<close>

theorem deduplicateTrips_idempotent:
  "deduplicateTrips numStr (deduplicateTrips numStr ts) = deduplicateTrips numStr ts"
proof -
  let ?seen = "foldl (dedupStep numStr) [] ts"
  have inv: "dedupInv numStr ts ?seen" by (rule dedupInv_foldl)
  have "map (getTripKey numStr) (deduplicateTrips numStr ts) = map fst ?seen"
    unfolding deduplicateTrips_def using inv by (rule dedup_values_keys)
  moreover have "distinct (map fst ?seen)" using inv by (simp add: dedupInv_def)
  ultimately have "distinct (map (getTripKey numStr) (deduplicateTrips numStr ts))" by simp
  then show ?thesis by (rule deduplicateTrips_distinct_keys_id)
qed

section \<open>Properties of the chat tool-calling loop\<close>







section \<open>Properties of searchStations\<close>

lemma sorted_wrt_take: "sorted_wrt P xs \<Longrightarrow> sorted_wrt P (take n xs)"
  by (induction xs arbitrary: n) (auto simp: take_Cons' dest: in_set_takeD)

lemma scoreStation_tiers:
  "scoreStation q station =
     firstOf (toLowerCase (station_name station) = q) 100
             (toLowerCase (station_city station) = q) 90
             (toLowerCase (station_province station) = q) 80
   + firstOf (startsWith (toLowerCase (station_name station)) q) 50
             (startsWith (toLowerCase (station_city station)) q) 45
             (startsWith (toLowerCase (station_province station)) q) 40
   + firstOf (includes_str (toLowerCase (station_name station)) q) 20
             (includes_str (toLowerCase (station_city station)) q) 15
             (includes_str (toLowerCase (station_province station)) q) 10
   + (if list_ex (\<lambda>word. startsWith word q)
           (splitSpaces (toLowerCase (station_name station))
            @ splitSpaces (toLowerCase (station_city station))
            @ splitSpaces (toLowerCase (station_province station)))
      then 30 else 0)"
  by (simp add: scoreStation_def firstOf_def Let_def)

lemma consistent_score_cmp: "consistentCmp (\<lambda>(a::'a \<times> int) b. snd b - snd a)"
  by (auto simp: consistentCmp_def)

lemma searchStations_unfold:
  assumes "length query \<ge> 2"
  shows "searchStations stations query limit country =
     map fst (take (case limit of None \<Rightarrow> 10 | Some l \<Rightarrow> l)
       (arraySort (\<lambda>a b. snd b - snd a)
         (filter (\<lambda>(station, score). score > 0)
           (map (\<lambda>station. (station, scoreStation (trim (toLowerCase query)) station))
             (filter (\<lambda>station.
                     \<not> (case country of
                          None \<Rightarrow> False
                        | Some c \<Rightarrow> c \<noteq> [] \<and>
                            toLowerCase (station_country station) \<noteq> toLowerCase c)) stations)))))"
proof -
  from assms have "\<not> (query = [] \<or> length query < 2)" by auto
  then show ?thesis unfolding searchStations_def Let_def by (simp only: if_False)
qed

text \<open>
  Claim C8, as amended. For every query of length at least 2, with \<open>q\<close> the lower-cased
  and trimmed query: a station's score is the sum of four bonuses, one per tier (exact,
  prefix, substring, word prefix), where in each of the first three tiers only the first
  test that holds among name, city and province counts (a station matching on both name
  and city receives the name bonus only); every station returned is a station of the data
  set with a strictly positive score, and the result is sorted by descending score.
\<close>

theorem searchStations_scores:
  assumes "length query \<ge> 2"
  shows "(\<forall>station \<in> set (searchStations stations query limit country).
            station \<in> set stations \<and> scoreStation (trim (toLowerCase query)) station > 0) \<and>
         sorted_wrt (\<lambda>a b. scoreStation (trim (toLowerCase query)) a
                            \<ge> scoreStation (trim (toLowerCase query)) b)
           (searchStations stations query limit country) \<and>
         (\<forall>station. scoreStation (trim (toLowerCase query)) station =
             firstOf (toLowerCase (station_name station) = trim (toLowerCase query)) 100
               (toLowerCase (station_city station) = trim (toLowerCase query)) 90
               (toLowerCase (station_province station) = trim (toLowerCase query)) 80
           + firstOf (startsWith (toLowerCase (station_name station)) (trim (toLowerCase query))) 50
               (startsWith (toLowerCase (station_city station)) (trim (toLowerCase query))) 45
               (startsWith (toLowerCase (station_province station)) (trim (toLowerCase query))) 40
           + firstOf (includes_str (toLowerCase (station_name station)) (trim (toLowerCase query))) 20
               (includes_str (toLowerCase (station_city station)) (trim (toLowerCase query))) 15
               (includes_str (toLowerCase (station_province station)) (trim (toLowerCase query))) 10
           + (if list_ex (\<lambda>word. startsWith word (trim (toLowerCase query)))
                   (splitSpaces (toLowerCase (station_name station))
                    @ splitSpaces (toLowerCase (station_city station))
                    @ splitSpaces (toLowerCase (station_province station)))
              then 30 else 0))"
proof -
  define q where "q = trim (toLowerCase query)"
  define kept where "kept = filter (\<lambda>station.
                     \<not> (case country of
                          None \<Rightarrow> False
                        | Some c \<Rightarrow> c \<noteq> [] \<and>
                            toLowerCase (station_country station) \<noteq> toLowerCase c)) stations"
  define positive where "positive = filter (\<lambda>(station, score). score > 0)
           (map (\<lambda>station. (station, scoreStation q station)) kept)"
  define sorted where "sorted = arraySort (\<lambda>(a::Station \<times> int) b. snd b - snd a) positive"
  define lim where "lim = (case limit of None \<Rightarrow> 10 | Some l \<Rightarrow> (l::nat))"
  have res: "searchStations stations query limit country = map fst (take lim sorted)"
    unfolding searchStations_unfold[OF assms] sorted_def positive_def kept_def q_def lim_def ..
  have pos: "snd p = scoreStation q (fst p) \<and> fst p \<in> set stations \<and> snd p > 0"
    if "p \<in> set positive" for p
    using that unfolding positive_def kept_def by auto
  have inS: "p \<in> set positive" if "p \<in> set (take lim sorted)" for p
  proof -
    from that have "p \<in> set sorted" by (rule in_set_takeD)
    then show ?thesis by (simp add: sorted_def set_arraySort)
  qed
  have a: "\<forall>station \<in> set (searchStations stations query limit country).
            station \<in> set stations \<and> scoreStation q station > 0"
  proof
    fix station assume "station \<in> set (searchStations stations query limit country)"
    then obtain p where p: "p \<in> set (take lim sorted)" "station = fst p"
      unfolding res by auto
    from pos[OF inS[OF p(1)]] p(2) show "station \<in> set stations \<and> scoreStation q station > 0"
      by simp
  qed
  have "sorted_wrt (\<lambda>a b. snd b - snd a \<le> 0) sorted"
    unfolding sorted_def using consistent_score_cmp by (rule sorted_arraySort)
  then have "sorted_wrt (\<lambda>a b. snd b - snd a \<le> 0) (take lim sorted)"
    by (rule sorted_wrt_take)
  then have "sorted_wrt (\<lambda>a b. scoreStation q (fst a) \<ge> scoreStation q (fst b)) (take lim sorted)"
  proof (rule sorted_wrt_mono_rel[rotated])
    fix a b assume "a \<in> set (take lim sorted)" "b \<in> set (take lim sorted)" "snd b - snd a \<le> 0"
    with pos[OF inS] show "scoreStation q (fst b) \<le> scoreStation q (fst a)" by simp
  qed
  then have b: "sorted_wrt (\<lambda>a b. scoreStation q a \<ge> scoreStation q b)
                  (searchStations stations query limit country)"
    unfolding res by (simp add: sorted_wrt_map)
  from a b scoreStation_tiers show ?thesis unfolding q_def by blast
qed

theorem searchStations_scores_witness:
  "2 \<le> length ''Bangkok'' \<and>
   sampleStation ''Mo Chit'' ''Bangkok'' ''Krung Thep''
     \<in> set (searchStations
         [sampleStation ''Phuket Bus Terminal'' ''Phuket'' ''Phuket'',
          sampleStation ''Mo Chit'' ''Bangkok'' ''Krung Thep''] ''Bangkok'' None None) \<and>
   scoreStation (trim (toLowerCase ''Bangkok''))
     (sampleStation ''Mo Chit'' ''Bangkok'' ''Krung Thep'') > 0"
proof -
  have len: "2 \<le> length ''Bangkok''" by simp
  have mem: "sampleStation ''Mo Chit'' ''Bangkok'' ''Krung Thep''
     \<in> set (searchStations
         [sampleStation ''Phuket Bus Terminal'' ''Phuket'' ''Phuket'',
          sampleStation ''Mo Chit'' ''Bangkok'' ''Krung Thep''] ''Bangkok'' None None)"
    by code_simp
  note th = searchStations_scores[OF len, of
      "[sampleStation ''Phuket Bus Terminal'' ''Phuket'' ''Phuket'',
        sampleStation ''Mo Chit'' ''Bangkok'' ''Krung Thep'']" None None]
  from th[THEN conjunct1, THEN bspec, OF mem]
  have "scoreStation (trim (toLowerCase ''Bangkok''))
     (sampleStation ''Mo Chit'' ''Bangkok'' ''Krung Thep'') > 0"
    by (rule conjunct2)
  with len mem show ?thesis by (intro conjI)
qed

text \<open>
  Claim C8 as stated fails: for the query "Bangkok", a station whose name and city are
  both "Bangkok" scores 100 + 50 + 20 + 30 = 200; with the city bonuses 90, 45 and 15
  counted as well the sum would be 350.
\<close>

theorem searchStations_scores_counterexample:
  "scoreStation (trim (toLowerCase ''Bangkok''))
     (sampleStation ''Bangkok'' ''Bangkok'' ''Krung Thep'') = 200 \<and>
   claimedScore (trim (toLowerCase ''Bangkok''))
     (sampleStation ''Bangkok'' ''Bangkok'' ''Krung Thep'') = 350"
  by code_simp

section \<open>Properties of applyFilters\<close>

text \<open>
  Claim C5, as amended. For every result list and filter state: with an empty operators
  list no operator filter is applied, and with an empty vehicleTypes list no vehicle-type
  filter is applied either (both filters are guarded by \<open>length > 0\<close>); the result is
  the sorted list of the trips that pass the remaining filters.
\<close>

theorem applyFilters_empty_lists:
  "applyFilters localeCompare results (filters\<lparr>operators := []\<rparr>) =
     arraySort (filterCompare localeCompare filters)
       (filter (\<lambda>trip. priceInRange filters trip \<and> hourInRange filters trip \<and>
                  (vehicleTypes filters = [] \<or> vehicleType trip \<in> set (vehicleTypes filters)))
          results) \<and>
   applyFilters localeCompare results (filters\<lparr>vehicleTypes := []\<rparr>) =
     arraySort (filterCompare localeCompare filters)
       (filter (\<lambda>trip. priceInRange filters trip \<and> hourInRange filters trip \<and>
                  (operators filters = [] \<or> operator trip \<in> set (operators filters)))
          results)"
proof -
  have c1: "filterCompare localeCompare (filters\<lparr>operators := []\<rparr>) = filterCompare localeCompare filters"
    by (intro ext) (simp add: filterCompare_def)
  have c2: "filterCompare localeCompare (filters\<lparr>vehicleTypes := []\<rparr>) = filterCompare localeCompare filters"
    by (intro ext) (simp add: filterCompare_def)
  have p1: "priceInRange (filters\<lparr>operators := []\<rparr>) = priceInRange filters"
    and p2: "priceInRange (filters\<lparr>vehicleTypes := []\<rparr>) = priceInRange filters"
    by (intro ext, simp add: priceInRange_def)+
  have h1: "hourInRange (filters\<lparr>operators := []\<rparr>) = hourInRange filters"
    and h2: "hourInRange (filters\<lparr>vehicleTypes := []\<rparr>) = hourInRange filters"
    by (intro ext, simp add: hourInRange_def split: option.splits)+
  have a: "applyFilters localeCompare results (filters\<lparr>operators := []\<rparr>) =
     arraySort (filterCompare localeCompare filters)
       (filter (\<lambda>trip. priceInRange filters trip \<and> hourInRange filters trip \<and>
                  (vehicleTypes filters = [] \<or> vehicleType trip \<in> set (vehicleTypes filters)))
          results)"
    unfolding applyFilters_def Let_def c1 p1 h1
    by (cases "vehicleTypes filters = []") (simp_all add: conj_commute conj_left_commute)
  have b: "applyFilters localeCompare results (filters\<lparr>vehicleTypes := []\<rparr>) =
     arraySort (filterCompare localeCompare filters)
       (filter (\<lambda>trip. priceInRange filters trip \<and> hourInRange filters trip \<and>
                  (operators filters = [] \<or> operator trip \<in> set (operators filters)))
          results)"
    unfolding applyFilters_def Let_def c2 p2 h2
    by (cases "operators filters = []") (simp_all add: conj_commute conj_left_commute)
  from a b show ?thesis by (rule conjI)
qed

text \<open>
  Claim C5 as stated fails: after the assignment \<open>vehicleTypes := []\<close> to the default
  filters, a bus trip at 08:00 for 350 is still returned.
\<close>

theorem applyFilters_empty_lists_counterexample:
  "applyFilters codeUnitCompare [sampleTrip ''08:00'' ''10:00'' ''Lomprayah'' 350 10]
     (defaultFilters\<lparr>vehicleTypes := []\<rparr>)
   = [sampleTrip ''08:00'' ''10:00'' ''Lomprayah'' 350 10]"
  by code_simp

section \<open>Properties of the city-to-city search\<close>

lemma collectResult_eq:
  "collectResult acc r = (fst acc @ fulfilledTrips r, snd acc @ rejectedMessages r)"
  by (cases r) (simp_all add: collectResult_def)

lemma foldl_collectResult:
  "foldl collectResult acc outs =
     (fst acc @ concat (map fulfilledTrips outs), snd acc @ concat (map rejectedMessages outs))"
  by (induction outs arbitrary: acc) (simp_all add: collectResult_eq)

lemma zip_upt_map:
  "map (\<lambda>(k, x). f k x) (zip [i ..< i + length xs] xs) = map (\<lambda>k. f k (xs ! (k - i))) [i ..< i + length xs]"
  by (rule nth_equalityI) simp_all

lemma batchResults_upt:
  "batchResults s d c pairs i =
     map (\<lambda>k. s k \<lparr>sp_origin = fst (pairs ! k), sp_destination = snd (pairs ! k), sp_date = d,
                   sp_company = c\<rparr>)
       [i ..< min (i + CONCURRENCY) (length pairs)]"
proof -
  let ?batch = "take CONCURRENCY (drop i pairs)"
  let ?f = "\<lambda>k pair. s k \<lparr>sp_origin = fst pair, sp_destination = snd pair, sp_date = d,
                   sp_company = c\<rparr>"
  have len: "i + length ?batch = (if i \<le> length pairs then min (i + CONCURRENCY) (length pairs) else i)"
    by auto
  have "batchResults s d c pairs i = map (\<lambda>k. ?f k (?batch ! (k - i))) [i ..< i + length ?batch]"
    unfolding batchResults_def Let_def using zip_upt_map[of ?f i ?batch] by simp
  also have "\<dots> = map (\<lambda>k. ?f k (pairs ! k)) [i ..< i + length ?batch]"
    by (rule map_cong[OF refl]) auto
  also have "[i ..< i + length ?batch] = [i ..< min (i + CONCURRENCY) (length pairs)]"
    unfolding len by auto
  finally show ?thesis .
qed

lemma fanOut_upt:
  "fanOut s d c pairs i acc =
     foldl collectResult acc
       (map (\<lambda>k. s k \<lparr>sp_origin = fst (pairs ! k), sp_destination = snd (pairs ! k), sp_date = d,
                     sp_company = c\<rparr>) [i ..< length pairs])"
proof (induction s d c pairs i acc rule: fanOut.induct)
  case (1 s d c pairs i acc)
  let ?g = "\<lambda>k. s k \<lparr>sp_origin = fst (pairs ! k), sp_destination = snd (pairs ! k), sp_date = d,
                     sp_company = c\<rparr>"
  show ?case
  proof (cases "i < length pairs")
    case False
    then show ?thesis by (subst fanOut.simps) simp
  next
    case True
    let ?m = "min (i + CONCURRENCY) (length pairs)"
    have split: "[i ..< length pairs] = [i ..< ?m] @ [?m ..< length pairs]"
    proof -
      have im: "i \<le> ?m" using True by simp
      have "length pairs = ?m + (length pairs - ?m)" by simp
      then have "[i ..< length pairs] = [i ..< ?m + (length pairs - ?m)]" by simp
      also have "\<dots> = [i ..< ?m] @ [?m ..< ?m + (length pairs - ?m)]"
        using im by (rule upt_add_eq_append)
      finally show ?thesis by simp
    qed
    have rest: "[i + CONCURRENCY ..< length pairs] = [?m ..< length pairs]"
      by (cases "i + CONCURRENCY \<le> length pairs") (simp_all add: min_def)
    have "fanOut s d c pairs i acc =
            fanOut s d c pairs (i + CONCURRENCY) (foldl collectResult acc (batchResults s d c pairs i))"
      using True by (subst fanOut.simps) simp
    also have "\<dots> = foldl collectResult (foldl collectResult acc (batchResults s d c pairs i))
                      (map ?g [i + CONCURRENCY ..< length pairs])"
      using "1.IH"[OF True] .
    also have "\<dots> = foldl collectResult acc (map ?g [i ..< ?m] @ map ?g [?m ..< length pairs])"
      unfolding batchResults_upt rest by simp
    also have "map ?g [i ..< ?m] @ map ?g [?m ..< length pairs] = map ?g [i ..< length pairs]"
      unfolding split by simp
    finally show ?thesis .
  qed
qed

lemma fanOut_outcomes:
  "fanOut s d c pairs 0 ([], []) =
     (concat (map fulfilledTrips (pairOutcomes s d c pairs)),
      concat (map rejectedMessages (pairOutcomes s d c pairs)))"
  by (simp add: fanOut_upt foldl_collectResult pairOutcomes_def)

lemma length_rejectedMessages:
  "length (concat (map rejectedMessages outs)) = length (filter isRejected outs)"
proof (induction outs)
  case Nil
  then show ?case by simp
next
  case (Cons r outs)
  then show ?case by (cases r) simp_all
qed

lemma all_rejected_trips: "list_all isRejected outs \<Longrightarrow> concat (map fulfilledTrips outs) = []"
proof (induction outs)
  case Nil
  then show ?case by simp
next
  case (Cons r outs)
  then show ?case by (cases r) simp_all
qed

lemma length_searchPairs:
  "length (searchPairs oc dc) = length (city_stations oc) * length (city_stations dc)"
  by (induction "city_stations oc" arbitrary: oc)
     (simp_all add: searchPairs_def length_concat comp_def sum_list_triv)

lemma getCityInfo_stations:
  "getCityInfo data n = Some ci \<Longrightarrow> city_stations ci \<noteq> [] \<and> stationCount ci = length (city_stations ci)"
  by (auto simp: getCityInfo_def split: list.splits)

lemma deduplicateTrips_Nil: "deduplicateTrips numStr [] = []"
  by (simp add: deduplicateTrips_def map_values_def)

lemma arraySort_Nil: "arraySort cmp [] = []"
  by (simp add: arraySort_def)

text \<open>
  Claim C3. In the non-streaming city-to-city search (valid date, both cities known, no
  \<open>stream=true\<close>), whatever the outcomes of the station-pair searches: the response
  has status 200; its trips are the deduplicated, sorted trips of the fulfilled searches;
  every rejected search contributes exactly one message to \<open>meta.errors\<close> and nothing
  else; and when all N searches are rejected the response is still 200 with no trips and
  with N messages in \<open>meta.errors\<close>, where N is the product of the station counts.
\<close>

theorem GET_city_search_soft_failure:
  assumes date: "q_date request = Some date" "dateRegexTest date"
    and orig: "q_originCity request = Some originCity" "originCity \<noteq> []"
      "getCityInfo data originCity = Some originCityInfo"
    and dest: "q_destinationCity request = Some destinationCity" "destinationCity \<noteq> []"
      "getCityInfo data destinationCity = Some destCityInfo"
    and batch: "q_stream request \<noteq> Some ''true''"
    and outs: "outcomes = pairOutcomes searchRoutes date
        (if truthy (q_company request) then the (q_company request) else ''12go'')
        (searchPairs originCityInfo destCityInfo)"
  shows "\<exists>b. GET data searchRoutes numStr localeCompare now request
               = \<lparr>status = 200, body = CityBody b\<rparr> \<and>
           body_trips b =
             arraySort (\<lambda>a b. localeCompare (departureTime a) (departureTime b))
               (deduplicateTrips numStr (concat (map fulfilledTrips outcomes))) \<and>
           meta_errors (body_meta b) = optionalErrors (concat (map rejectedMessages outcomes)) \<and>
           length (concat (map rejectedMessages outcomes)) = length (filter isRejected outcomes) \<and>
           length outcomes = stationCount originCityInfo * stationCount destCityInfo \<and>
           (list_all isRejected outcomes \<longrightarrow>
              body_trips b = [] \<and>
              (\<exists>errs. meta_errors (body_meta b) = Some errs \<and> length errs = length outcomes))"
proof -
  let ?company = "if truthy (q_company request) then the (q_company request) else ''12go''"
  let ?pairs = "searchPairs originCityInfo destCityInfo"
  let ?cmp = "\<lambda>a b. localeCompare (departureTime a) (departureTime b)"
  let ?trips = "arraySort ?cmp (deduplicateTrips numStr (concat (map fulfilledTrips outcomes)))"
  let ?errs = "concat (map rejectedMessages outcomes)"
  let ?b = "\<lparr>body_trips = ?trips, body_originCity = originCityInfo,
             body_destinationCity = destCityInfo, body_date = date,
             body_searchId = originCity @ ''-'' @ destinationCity @ ''-'' @ date @ ''-'' @ decimal now,
             body_meta = \<lparr>stationCombinations = length ?pairs,
                          totalTripsFound = length (concat (map fulfilledTrips outcomes)),
                          uniqueTrips = length ?trips,
                          meta_errors = optionalErrors ?errs\<rparr>\<rparr>"
  from date(2) have dne: "date \<noteq> []" by (auto simp: dateRegexTest_def)
  have td: "truthy (Some date)" using dne by (simp add: truthy_def)
  have toc: "truthy (Some originCity)" using orig(2) by (simp add: truthy_def)
  have tdc: "truthy (Some destinationCity)" using dest(2) by (simp add: truthy_def)
  have fan: "fanOut searchRoutes date ?company ?pairs 0 ([], []) =
               (concat (map fulfilledTrips outcomes), ?errs)"
    unfolding outs by (rule fanOut_outcomes)
  have get: "GET data searchRoutes numStr localeCompare now request = \<lparr>status = 200, body = CityBody ?b\<rparr>"
    unfolding GET_def Let_def
    using date(1) orig(1) dest(1) date(2) orig(3) dest(3) batch
    by (simp add: td toc tdc fan split del: if_split)
  have len: "length outcomes = stationCount originCityInfo * stationCount destCityInfo"
    using getCityInfo_stations[OF orig(3)] getCityInfo_stations[OF dest(3)]
    by (simp add: outs pairOutcomes_def length_searchPairs)
  have pos: "length outcomes > 0"
    using getCityInfo_stations[OF orig(3)] getCityInfo_stations[OF dest(3)]
    by (simp add: outs pairOutcomes_def length_searchPairs)
  have cnt: "length ?errs = length (filter isRejected outcomes)"
    by (rule length_rejectedMessages)
  have allrej: "?trips = [] \<and> (\<exists>errs. optionalErrors ?errs = Some errs \<and> length errs = length outcomes)"
    if "list_all isRejected outcomes"
  proof -
    from that have e: "concat (map fulfilledTrips outcomes) = []" by (rule all_rejected_trips)
    have t: "?trips = []" unfolding e by (simp only: deduplicateTrips_Nil arraySort_Nil)
    from that have "filter isRejected outcomes = outcomes" by (simp add: list_all_iff)
    with cnt have "length ?errs = length outcomes" by simp
    with pos have "optionalErrors ?errs = Some ?errs \<and> length ?errs = length outcomes"
      by (simp add: optionalErrors_def)
    with t show ?thesis by blast
  qed
  have c1: "body_trips ?b = ?trips" by simp
  have c2: "meta_errors (body_meta ?b) = optionalErrors ?errs" by simp
  have c6: "list_all isRejected outcomes \<longrightarrow>
              body_trips ?b = [] \<and>
              (\<exists>errs. meta_errors (body_meta ?b) = Some errs \<and> length errs = length outcomes)"
    unfolding c1 c2 using allrej by blast
  from get c1 c2 cnt len c6 show ?thesis by (intro exI[of _ ?b] conjI)
qed


text \<open>
  Scenario E of the specification: three Bangkok stations, two Phuket stations, all six
  searches fail; the response is 200 with no trips and six messages.
\<close>

theorem GET_city_search_soft_failure_witness:
  "\<exists>b. GET sampleData allFail showAmount codeUnitCompare 0 sampleRequest
          = \<lparr>status = 200, body = CityBody b\<rparr> \<and>
        body_trips b = [] \<and>
        (\<exists>errs. meta_errors (body_meta b) = Some errs \<and> length errs = 6)"
proof -
  let ?oc = "sampleCity ''Bangkok'' [''B1'', ''B2'', ''B3'']"
  let ?dc = "sampleCity ''Phuket'' [''P1'', ''P2'']"
  let ?outs = "pairOutcomes allFail ''2025-06-01''
        (if truthy (q_company sampleRequest) then the (q_company sampleRequest) else ''12go'')
        (searchPairs ?oc ?dc)"
  have d1: "q_date sampleRequest = Some ''2025-06-01''" by (simp add: sampleRequest_def)
  have d2: "dateRegexTest ''2025-06-01''" by code_simp
  have o1: "q_originCity sampleRequest = Some ''Bangkok''" by (simp add: sampleRequest_def)
  have o2: "''Bangkok'' \<noteq> []" by simp
  have o3: "getCityInfo sampleData ''Bangkok'' = Some ?oc" by code_simp
  have e1: "q_destinationCity sampleRequest = Some ''Phuket''" by (simp add: sampleRequest_def)
  have e2: "''Phuket'' \<noteq> []" by simp
  have e3: "getCityInfo sampleData ''Phuket'' = Some ?dc" by code_simp
  have s: "q_stream sampleRequest \<noteq> Some ''true''" by (simp add: sampleRequest_def)
  have rej: "list_all isRejected ?outs"
    by (simp add: pairOutcomes_def allFail_def list_all_iff)
  have n: "stationCount ?oc * stationCount ?dc = 6" by (simp add: sampleCity_def)
  from GET_city_search_soft_failure[OF d1 d2 o1 o2 o3 e1 e2 e3 s refl,
      of allFail showAmount codeUnitCompare 0]
  obtain b where b: "GET sampleData allFail showAmount codeUnitCompare 0 sampleRequest
          = \<lparr>status = 200, body = CityBody b\<rparr>"
    and len: "length ?outs = stationCount ?oc * stationCount ?dc"
    and imp: "list_all isRejected ?outs \<longrightarrow>
              body_trips b = [] \<and>
              (\<exists>errs. meta_errors (body_meta b) = Some errs \<and> length errs = length ?outs)"
    by blast
  from imp rej len n have "body_trips b = [] \<and>
              (\<exists>errs. meta_errors (body_meta b) = Some errs \<and> length errs = 6)"
    by simp
  with b show ?thesis by blast
qed

section \<open>Properties of the POI directory\<close>





















section \<open>Properties of the legacy adapter\<close>

lemma legacyOptions_all:
  assumes step: "\<And>opt t. legacyTrip data dp oi di key opt = Some (Inr t) \<Longrightarrow> P t"
  shows "legacyOptions data dp oi di key opts trips = Inr out \<Longrightarrow>
         (\<forall>t \<in> set trips. P t) \<Longrightarrow> (\<forall>t \<in> set out. P t)"
proof (induction opts arbitrary: trips)
  case Nil
  then show ?case by simp
next
  case (Cons opt opts)
  show ?case
  proof (cases "legacyTrip data dp oi di key opt")
    case None
    with Cons.prems(1) have "legacyOptions data dp oi di key opts trips = Inr out" by simp
    from Cons.IH[OF this Cons.prems(2)] show ?thesis .
  next
    case (Some r)
    show ?thesis
    proof (cases r)
      case (Inl e)
      with Some Cons.prems(1) show ?thesis by simp
    next
      case (Inr t)
      with Some Cons.prems(1)
      have run: "legacyOptions data dp oi di key opts (trips @ [t]) = Inr out" by simp
      from Some Inr have "P t" by (auto intro: step)
      with Cons.prems(2) have "\<forall>x \<in> set (trips @ [t]). P x" by simp
      from Cons.IH[OF run this] show ?thesis .
    qed
  qed
qed

lemma legacyResponses_all:
  assumes step: "\<And>key opt t. legacyTrip data dp oi di key opt = Some (Inr t) \<Longrightarrow> P t"
  shows "legacyResponses data dp oi di rs trips = Inr out \<Longrightarrow>
         (\<forall>t \<in> set trips. P t) \<Longrightarrow> (\<forall>t \<in> set out. P t)"
proof (induction rs arbitrary: trips)
  case Nil
  then show ?case by simp
next
  case (Cons r rs)
  show ?case
  proof (cases "segment_keys r")
    case Nil
    with Cons.prems(1) have "legacyResponses data dp oi di rs trips = Inr out" by simp
    from Cons.IH[OF this Cons.prems(2)] show ?thesis .
  next
    case (Cons key others)
    show ?thesis
    proof (cases "legacyOptions data dp oi di key (trip_options r) trips")
      case (Inl e)
      with Cons Cons.prems(1) show ?thesis by simp
    next
      case (Inr trips')
      with Cons Cons.prems(1) have run: "legacyResponses data dp oi di rs trips' = Inr out" by simp
      have "\<forall>t \<in> set trips'. P t"
        using legacyOptions_all[of data dp oi di key P, OF step Inr Cons.prems(2)] .
      from Cons.IH[OF run this] show ?thesis .
    qed
  qed
qed

lemma parseApiResponse_all:
  assumes step: "\<And>key opt t. legacyTrip data dp oi di key opt = Some (Inr t) \<Longrightarrow> P t"
    and run: "parseApiResponse data dp lc rs oi di date company = Inr out"
  shows "\<forall>t \<in> set out. P t"
proof -
  from run obtain trips where t: "legacyResponses data dp oi di rs [] = Inr trips"
    and out: "out = arraySort (\<lambda>a b. lc (departureTime a) (departureTime b)) trips"
    by (auto simp: parseApiResponse_def split: sum.splits)
  have "\<forall>t \<in> set trips. P t"
    using legacyResponses_all[of data dp oi di P, OF step t] by simp
  then show ?thesis unfolding out by (simp add: set_arraySort)
qed

lemma parseApiResponse_sorted:
  assumes "consistentCmp lc"
    and run: "parseApiResponse data dp lc rs oi di date company = Inr out"
  shows "sorted_wrt (\<lambda>a b. lc (departureTime a) (departureTime b) \<le> 0) out"
proof -
  from run obtain trips where
    out: "out = arraySort (\<lambda>a b. lc (departureTime a) (departureTime b)) trips"
    by (auto simp: parseApiResponse_def split: sum.splits)
  show ?thesis unfolding out
    by (rule sorted_arraySort) (rule consistentCmp_key[OF assms(1)])
qed

lemma legacyTrip_segment:
  "legacyTrip data dp oi di key opt = Some (Inr t) \<Longrightarrow>
   (\<exists>s. segments t = [s] \<and> seg_departureTime s = departureTime t \<and>
        seg_arrivalTime s = arrivalTime t \<and> seg_operator s = operator t \<and>
        seg_vehicleType s = vehicleType t)"
  by (auto simp: legacyTrip_def Let_def split: if_splits option.splits)

lemma legacyTrip_duration:
  "legacyTrip data dp oi di key opt = Some (Inr t) \<Longrightarrow> duration t = clockDuration dp t"
  by (auto simp: legacyTrip_def Let_def clockDuration_def split: if_splits option.splits)

section \<open>Properties of the POI-keyed adapter\<close>

lemma digit_facts:
  "list_all (\<lambda>c. \<not> isSpace c \<and> c \<noteq> CHR ''-'' \<and> c \<noteq> CHR ''+'' \<and> c \<noteq> CHR ''x'' \<and> c \<noteq> CHR ''X''
      \<and> isDigitOf 10 c) ''0123456789''"
  by code_simp

lemma isDigit_props:
  assumes "isDigit c"
  shows "\<not> isSpace c" "c \<noteq> CHR ''-''" "c \<noteq> CHR ''+''" "c \<noteq> CHR ''x''" "c \<noteq> CHR ''X''"
    "isDigitOf 10 c"
proof -
  from assms have "c \<in> set ''0123456789''" by (simp only: isDigit_def)
  with digit_facts have "\<not> isSpace c \<and> c \<noteq> CHR ''-'' \<and> c \<noteq> CHR ''+'' \<and> c \<noteq> CHR ''x'' \<and> c \<noteq> CHR ''X''
      \<and> isDigitOf 10 c"
    unfolding list_all_iff by blast
  then show "\<not> isSpace c" "c \<noteq> CHR ''-''" "c \<noteq> CHR ''+''" "c \<noteq> CHR ''x''" "c \<noteq> CHR ''X''"
    "isDigitOf 10 c" by blast+
qed

lemma parseInt_digits:
  assumes ne: "ds \<noteq> []" and dig: "list_all isDigit ds"
  shows "parseInt ds = Some (int (digitsValue 10 ds))"
proof -
  from ne obtain c cs where ds: "ds = c # cs" by (cases ds) auto
  with dig have c: "isDigit c" and cs: "list_all isDigit cs" by simp_all
  have s1: "dropWhile isSpace ds = ds" using ds isDigit_props(1)[OF c] by simp
  have nohex: "\<not> prefix ''0x'' ds" "\<not> prefix ''0X'' ds"
  proof -
    show "\<not> prefix ''0x'' ds"
    proof
      assume "prefix ''0x'' ds"
      then obtain r where "ds = ''0x'' @ r" by (auto simp: prefix_def)
      with dig have "isDigit CHR ''x''" by simp
      then show False using isDigit_props(4) by blast
    qed
    show "\<not> prefix ''0X'' ds"
    proof
      assume "prefix ''0X'' ds"
      then obtain r where "ds = ''0X'' @ r" by (auto simp: prefix_def)
      with dig have "isDigit CHR ''X''" by simp
      then show False using isDigit_props(5) by blast
    qed
  qed
  have all10: "takeWhile (isDigitOf 10) ds = ds"
    using dig by (simp add: list_all_iff isDigit_props(6))
  have sign: "hd ds \<noteq> CHR ''-''" "hd ds \<noteq> CHR ''+''"
    using ds isDigit_props(2,3)[OF c] by simp_all
  show ?thesis
    unfolding parseInt_def Let_def s1
    using ne nohex sign by (simp add: all10 del: takeWhile_eq_all_conv)
qed

lemma digitsBefore_digits:
  "digitsBefore l s = Some (ds, r) \<Longrightarrow> ds \<noteq> [] \<and> list_all isDigit ds"
  by (auto simp: digitsBefore_def Let_def list_all_iff split: if_splits dest: set_takeWhileD)

lemma parseInt_zero: "parseInt ''0'' = Some 0"
  by code_simp

lemma parseInt_group:
  "\<exists>n. parseInt (case g of None \<Rightarrow> ''0'' | Some (ds, r) \<Rightarrow> ds) = Some (int n)"
    if "g = digitsBefore l s"
proof (cases g)
  case None
  then show ?thesis using parseInt_zero by (intro exI[of _ 0]) simp
next
  case (Some p)
  obtain ds r where p: "p = (ds, r)" by (cases p)
  from Some p that have "digitsBefore l s = Some (ds, r)" by simp
  from digitsBefore_digits[OF this] have "parseInt ds = Some (int (digitsValue 10 ds))"
    by (simp add: parseInt_digits)
  with Some p show ?thesis by auto
qed

lemma parseDuration_nonneg: "\<exists>n. parseDuration d = Some n \<and> 0 \<le> n"
proof (cases "afterPT d")
  case None
  then show ?thesis by (simp add: parseDuration_def)
next
  case (Some s)
  define g1 where "g1 = digitsBefore CHR ''H'' s"
  define s' where "s' = (case g1 of None \<Rightarrow> s | Some (ds, r) \<Rightarrow> r)"
  define g2 where "g2 = digitsBefore CHR ''M'' s'"
  from parseInt_group[OF g1_def] obtain h where
    h: "parseInt (case g1 of None \<Rightarrow> ''0'' | Some (ds, r) \<Rightarrow> ds) = Some (int h)" by blast
  from parseInt_group[OF g2_def] obtain m where
    m: "parseInt (case g2 of None \<Rightarrow> ''0'' | Some (ds, r) \<Rightarrow> ds) = Some (int m)" by blast
  have "parseDuration d = Some (int h * 60 + int m)"
    unfolding parseDuration_def Some Let_def
    using h m unfolding g1_def g2_def s'_def g1_def by (simp add: addNum_def)
  then show ?thesis by simp
qed

lemma totalDuration_fold:
  "0 \<le> a \<Longrightarrow> \<exists>n. foldl (\<lambda>sum seg. addNum sum (parseDuration (travel_duration seg))) (Some a) segs = Some n \<and> 0 \<le> n"
proof (induction segs arbitrary: a)
  case Nil
  then show ?case by simp
next
  case (Cons seg segs)
  from parseDuration_nonneg obtain k where k: "parseDuration (travel_duration seg) = Some k" "0 \<le> k"
    by blast
  with Cons.prems have "0 \<le> a + k" by simp
  from Cons.IH[OF this] k(1) show ?case by (simp add: addNum_def)
qed

lemma totalDuration_nonneg: "\<exists>n. totalDuration segs = Some n \<and> 0 \<le> n"
  unfolding totalDuration_def by (rule totalDuration_fold) simp

lemma consistentCmp_sym0:
  assumes "consistentCmp cmp" shows "cmp a b = 0 \<longleftrightarrow> cmp b a = 0"
proof -
  from assms have s: "\<And>a b. cmp a b > 0 \<longleftrightarrow> cmp b a < 0" unfolding consistentCmp_def by blast
  show ?thesis using s[of a b] s[of b a] by (metis less_linear less_irrefl)
qed

lemma tripCompare_le:
  assumes "consistentCmp lc"
  shows "tripCompare lc a b \<le> 0 \<longleftrightarrow>
     lc (departureTime a) (departureTime b) < 0 \<or>
     (lc (departureTime a) (departureTime b) = 0 \<and> amount (price a) \<le> amount (price b))"
  by (auto simp: tripCompare_def Let_def)

lemma tripCompare_pos:
  "tripCompare lc a b > 0 \<longleftrightarrow>
     lc (departureTime a) (departureTime b) > 0 \<or>
     (lc (departureTime a) (departureTime b) = 0 \<and> amount (price a) > amount (price b))"
  by (auto simp: tripCompare_def Let_def)

lemma tripCompare_neg:
  "tripCompare lc a b < 0 \<longleftrightarrow>
     lc (departureTime a) (departureTime b) < 0 \<or>
     (lc (departureTime a) (departureTime b) = 0 \<and> amount (price a) < amount (price b))"
  by (auto simp: tripCompare_def Let_def)

lemma consistentCmp_strict_trans:
  assumes c: "consistentCmp (cmp :: 'a \<Rightarrow> 'a \<Rightarrow> int)" and ab: "cmp a b < 0" and bc: "cmp b c \<le> 0"
  shows "cmp a c < 0"
proof (rule ccontr)
  assume "\<not> cmp a c < 0"
  then have "cmp a c \<ge> 0" by simp
  from c have s: "\<And>a b. cmp a b > 0 \<longleftrightarrow> cmp b a < 0"
    and t: "\<And>a b c. cmp a b \<le> 0 \<Longrightarrow> cmp b c \<le> 0 \<Longrightarrow> cmp a c \<le> 0"
    unfolding consistentCmp_def by blast+
  from ab bc have "cmp a c \<le> 0" using t[of a b c] by simp
  with \<open>cmp a c \<ge> 0\<close> have "cmp a c = 0" by simp
  then have "cmp c a = 0" using consistentCmp_sym0[OF c] by blast
  then have "cmp c a \<le> 0" by simp
  from t[OF bc this] have "cmp b a \<le> 0" .
  moreover from ab have "cmp b a > 0" using s[of b a] by simp
  ultimately show False by simp
qed

lemma consistentCmp_strict_trans2:
  assumes c: "consistentCmp (cmp :: 'a \<Rightarrow> 'a \<Rightarrow> int)" and ab: "cmp a b \<le> 0" and bc: "cmp b c < 0"
  shows "cmp a c < 0"
proof (rule ccontr)
  assume "\<not> cmp a c < 0"
  then have "cmp a c \<ge> 0" by simp
  from c have s: "\<And>a b. cmp a b > 0 \<longleftrightarrow> cmp b a < 0"
    and t: "\<And>a b c. cmp a b \<le> 0 \<Longrightarrow> cmp b c \<le> 0 \<Longrightarrow> cmp a c \<le> 0"
    unfolding consistentCmp_def by blast+
  from ab bc have "cmp a c \<le> 0" using t[of a b c] by simp
  with \<open>cmp a c \<ge> 0\<close> have "cmp a c = 0" by simp
  then have "cmp c a = 0" using consistentCmp_sym0[OF c] by blast
  then have "cmp c a \<le> 0" by simp
  from t[OF this ab] have "cmp c b \<le> 0" .
  moreover from bc have "cmp c b > 0" using s[of c b] by simp
  ultimately show False by simp
qed

lemma consistentCmp_tripCompare:
  assumes c: "consistentCmp lc"
  shows "consistentCmp (tripCompare lc)"
  unfolding consistentCmp_def
proof (intro conjI allI impI)
  fix a b :: TripOption
  let ?x = "lc (departureTime a) (departureTime b)" and ?y = "lc (departureTime b) (departureTime a)"
  from c have s: "?x > 0 \<longleftrightarrow> ?y < 0" "?y > 0 \<longleftrightarrow> ?x < 0" unfolding consistentCmp_def by blast+
  have z: "?x = 0 \<longleftrightarrow> ?y = 0" by (rule consistentCmp_sym0[OF c])
  show "tripCompare lc a b > 0 \<longleftrightarrow> tripCompare lc b a < 0"
    unfolding tripCompare_pos tripCompare_neg using s z by auto
next
  fix a b d :: TripOption
  assume h: "tripCompare lc a b \<le> 0 \<and> tripCompare lc b d \<le> 0"
  let ?ab = "lc (departureTime a) (departureTime b)"
  let ?bd = "lc (departureTime b) (departureTime d)"
  let ?ad = "lc (departureTime a) (departureTime d)"
  from c have t: "\<And>x y z. lc x y \<le> 0 \<Longrightarrow> lc y z \<le> 0 \<Longrightarrow> lc x z \<le> 0"
    unfolding consistentCmp_def by blast
  from h have ab: "?ab < 0 \<or> (?ab = 0 \<and> amount (price a) \<le> amount (price b))"
    and bd: "?bd < 0 \<or> (?bd = 0 \<and> amount (price b) \<le> amount (price d))"
    by (simp_all add: tripCompare_le[OF c])
  have "?ad < 0 \<or> (?ad = 0 \<and> amount (price a) \<le> amount (price d))"
  proof (cases "?ab < 0")
    case True
    moreover from bd have "?bd \<le> 0" by auto
    ultimately have "?ad < 0" by (rule consistentCmp_strict_trans[OF c])
    then show ?thesis by simp
  next
    case False
    with ab have ab0: "?ab = 0" "amount (price a) \<le> amount (price b)" by auto
    show ?thesis
    proof (cases "?bd < 0")
      case True
      from ab0(1) have "?ab \<le> 0" by simp
      from consistentCmp_strict_trans2[OF c this True] show ?thesis by simp
    next
      case False
      with bd have bd0: "?bd = 0" "amount (price b) \<le> amount (price d)" by auto
      from ab0(1) bd0(1) have "?ad \<le> 0" using t[of "departureTime a" "departureTime b" "departureTime d"] by simp
      moreover have "?ad \<ge> 0"
      proof -
        from ab0(1) have "lc (departureTime b) (departureTime a) = 0"
          using consistentCmp_sym0[OF c] by blast
        moreover from bd0(1) have "lc (departureTime d) (departureTime b) = 0"
          using consistentCmp_sym0[OF c] by blast
        ultimately have "lc (departureTime d) (departureTime a) \<le> 0"
          using t[of "departureTime d" "departureTime b" "departureTime a"] by simp
        then have "\<not> lc (departureTime d) (departureTime a) > 0" by simp
        then have "\<not> ?ad < 0" using c unfolding consistentCmp_def by blast
        then show ?thesis by simp
      qed
      ultimately have "?ad = 0" by simp
      with ab0(2) bd0(2) show ?thesis by simp
    qed
  qed
  then show "tripCompare lc a d \<le> 0" by (simp add: tripCompare_le[OF c])
qed

lemma itineraryTrip_props:
  "itineraryTrip data dp ap it = Some t \<Longrightarrow>
     segments t \<noteq> [] \<and> trip_id t = it_id it \<and>
     duration t = totalDuration (itinerarySegments data it) \<and>
     length (segments t) = length (itinerarySegments data it)"
  by (auto simp: itineraryTrip_def Let_def split: list.splits)

lemma set_map_filter: "set (List.map_filter f xs) = {y. \<exists>x \<in> set xs. f x = Some y}"
  by (induction xs) (auto split: option.splits)

lemma parseItinerariesResponse_set:
  "t \<in> set (parseItinerariesResponse lc data dp ap) \<longleftrightarrow>
     (\<exists>it \<in> set (itineraries data). itineraryTrip data dp ap it = Some t)"
  by (simp add: parseItinerariesResponse_def set_arraySort set_map_filter)

lemma parseItinerariesResponse_sorted:
  assumes "consistentCmp lc"
  shows "sorted_wrt (\<lambda>a b. lc (departureTime a) (departureTime b) < 0 \<or>
           (lc (departureTime a) (departureTime b) = 0 \<and> amount (price a) \<le> amount (price b)))
         (parseItinerariesResponse lc data dp ap)"
proof -
  have "sorted_wrt (\<lambda>a b. tripCompare lc a b \<le> 0) (parseItinerariesResponse lc data dp ap)"
    unfolding parseItinerariesResponse_def
    by (rule sorted_arraySort) (rule consistentCmp_tripCompare[OF assms])
  then show ?thesis by (simp add: tripCompare_le[OF assms])
qed

section \<open>Properties of both adapters\<close>

text \<open>
  Claim C2, as amended. For every payload and every consistent \<open>localeCompare\<close>: the
  list that parseItinerariesResponse returns is sorted by departureTime ascending and,
  among trips with equal departureTime, by price.amount ascending; the list that
  parseApiResponse returns is sorted by departureTime ascending, and its comparison
  function compares nothing else.
\<close>

theorem adapters_sorted:
  assumes "consistentCmp localeCompare"
  shows "sorted_wrt (\<lambda>a b. localeCompare (departureTime a) (departureTime b) < 0 \<or>
             (localeCompare (departureTime a) (departureTime b) = 0 \<and>
              amount (price a) \<le> amount (price b)))
           (parseItinerariesResponse localeCompare data departurePoi arrivalPoi) \<and>
         (\<forall>trips. parseApiResponse stations dateParse localeCompare itineraryResponses
                    originId destId date company = Inr trips \<longrightarrow>
            sorted_wrt (\<lambda>a b. localeCompare (departureTime a) (departureTime b) \<le> 0) trips)"
proof (intro conjI allI impI)
  show "sorted_wrt (\<lambda>a b. localeCompare (departureTime a) (departureTime b) < 0 \<or>
             (localeCompare (departureTime a) (departureTime b) = 0 \<and>
              amount (price a) \<le> amount (price b)))
           (parseItinerariesResponse localeCompare data departurePoi arrivalPoi)"
    using assms by (rule parseItinerariesResponse_sorted)
next
  fix trips
  assume "parseApiResponse stations dateParse localeCompare itineraryResponses
            originId destId date company = Inr trips"
  with assms show "sorted_wrt (\<lambda>a b. localeCompare (departureTime a) (departureTime b) \<le> 0) trips"
    by (rule parseApiResponse_sorted)
qed

theorem adapters_sorted_witness:
  "consistentCmp codeUnitCompare \<and>
   sorted_wrt (\<lambda>a b. codeUnitCompare (departureTime a) (departureTime b) < 0 \<or>
       (codeUnitCompare (departureTime a) (departureTime b) = 0 \<and>
        amount (price a) \<le> amount (price b))) sampleModernRun \<and>
   sorted_wrt (\<lambda>a b. codeUnitCompare (departureTime a) (departureTime b) \<le> 0)
     (projr sampleLegacyRun)"
proof -
  have c: "consistentCmp codeUnitCompare" by (rule consistentCmp_codeUnitCompare)
  have "\<not> isl sampleLegacyRun" by code_simp
  then have run: "parseApiResponse sampleData sampleDateParse codeUnitCompare sampleLegacyResponse
       ''B1'' ''P1'' ''2025-06-01'' TwelveGo = Inr (projr sampleLegacyRun)"
    by (simp add: sampleLegacyRun_def)
  note th = adapters_sorted[OF c, of sampleItineraries "''THBAN''" "''THPHU''"
      sampleData sampleDateParse sampleLegacyResponse "''B1''" "''P1''" "''2025-06-01''" TwelveGo]
  from th[THEN conjunct1]
  have m: "sorted_wrt (\<lambda>a b. codeUnitCompare (departureTime a) (departureTime b) < 0 \<or>
       (codeUnitCompare (departureTime a) (departureTime b) = 0 \<and>
        amount (price a) \<le> amount (price b))) sampleModernRun"
    by (simp only: sampleModernRun_def)
  from th[THEN conjunct2, THEN spec, THEN mp, OF run]
  have l: "sorted_wrt (\<lambda>a b. codeUnitCompare (departureTime a) (departureTime b) \<le> 0)
     (projr sampleLegacyRun)" .
  from c m l show ?thesis by (intro conjI)
qed

text \<open>
  Claim C2 as stated fails for the legacy adapter: two trip options of one itinerary
  response leave at 08:00, the first for 20 and the second for 10, and parseApiResponse
  returns them in that order.
\<close>

theorem adapters_sorted_counterexample:
  "timesAndPrices sampleLegacyRun = [(''08:00'', 20), (''08:00'', 10), (''14:00'', 30)]"
  by code_simp

text \<open>
  Claim C4, as amended. Every trip of parseItinerariesResponse has a non-empty list of
  segments and a duration that is a non-negative number: the sum of the parsed
  \<open>travel_duration\<close> of the segments of its itinerary (not the difference of its clock
  times). Every trip of parseApiResponse has a non-empty list of segments and the
  duration that calculateDuration computes from the trip's own dates and times: the
  arrival minus the departure, in minutes.
\<close>

theorem adapters_duration:
  "(\<forall>t \<in> set (parseItinerariesResponse localeCompare data departurePoi arrivalPoi).
      segments t \<noteq> [] \<and> (\<exists>n. duration t = Some n \<and> 0 \<le> n) \<and>
      (\<exists>it \<in> set (itineraries data).
         trip_id t = it_id it \<and> duration t = totalDuration (itinerarySegments data it))) \<and>
   (\<forall>trips. parseApiResponse stations dateParse localeCompare itineraryResponses
              originId destId date company = Inr trips \<longrightarrow>
      (\<forall>t \<in> set trips. segments t \<noteq> [] \<and> duration t = clockDuration dateParse t))"
proof (intro conjI ballI allI impI)
  fix t
  assume "t \<in> set (parseItinerariesResponse localeCompare data departurePoi arrivalPoi)"
  then obtain it where it: "it \<in> set (itineraries data)"
    and trip: "itineraryTrip data departurePoi arrivalPoi it = Some t"
    unfolding parseItinerariesResponse_set by blast
  note p = itineraryTrip_props[OF trip]
  from p show "segments t \<noteq> []" by simp
  from p totalDuration_nonneg[of "itinerarySegments data it"]
  show "\<exists>n. duration t = Some n \<and> 0 \<le> n" by simp
  from p it
  show "\<exists>it \<in> set (itineraries data).
         trip_id t = it_id it \<and> duration t = totalDuration (itinerarySegments data it)"
    by blast
next
  fix trips t
  assume run: "parseApiResponse stations dateParse localeCompare itineraryResponses
              originId destId date company = Inr trips"
    and t: "t \<in> set trips"
  have "\<forall>t \<in> set trips. segments t \<noteq> [] \<and> duration t = clockDuration dateParse t"
  proof (rule parseApiResponse_all[OF _ run])
    fix key opt u
    assume u: "legacyTrip stations dateParse originId destId key opt = Some (Inr u)"
    from legacyTrip_segment[OF u] legacyTrip_duration[OF u]
    show "segments u \<noteq> [] \<and> duration u = clockDuration dateParse u" by auto
  qed
  with t show "segments t \<noteq> []" "duration t = clockDuration dateParse t" by simp_all
qed

theorem adapters_duration_witness:
  "segments (hd sampleModernRun) \<noteq> [] \<and>
   (\<exists>n. duration (hd sampleModernRun) = Some n \<and> 0 \<le> n) \<and>
   duration (hd (projr sampleLegacyRun)) = clockDuration sampleDateParse (hd (projr sampleLegacyRun))"
proof -
  have "sampleModernRun \<noteq> []" by code_simp
  then have m: "hd sampleModernRun
      \<in> set (parseItinerariesResponse codeUnitCompare sampleItineraries ''THBAN'' ''THPHU'')"
    by (simp add: sampleModernRun_def)
  have "\<not> isl sampleLegacyRun" by code_simp
  then have run: "parseApiResponse sampleData sampleDateParse codeUnitCompare sampleLegacyResponse
       ''B1'' ''P1'' ''2025-06-01'' TwelveGo = Inr (projr sampleLegacyRun)"
    by (simp add: sampleLegacyRun_def)
  have "projr sampleLegacyRun \<noteq> []" by code_simp
  then have l: "hd (projr sampleLegacyRun) \<in> set (projr sampleLegacyRun)" by simp
  note th = adapters_duration[of codeUnitCompare sampleItineraries "''THBAN''" "''THPHU''"
      sampleData sampleDateParse sampleLegacyResponse "''B1''" "''P1''" "''2025-06-01''" TwelveGo]
  from th[THEN conjunct1, THEN bspec, OF m]
  have a: "segments (hd sampleModernRun) \<noteq> []"
    and b: "\<exists>n. duration (hd sampleModernRun) = Some n \<and> 0 \<le> n" by blast+
  from th[THEN conjunct2, THEN spec, THEN mp, OF run, THEN bspec, OF l]
  have c: "duration (hd (projr sampleLegacyRun))
             = clockDuration sampleDateParse (hd (projr sampleLegacyRun))" by blast
  from a b c show ?thesis by (intro conjI)
qed

text \<open>
  Claim C4 as stated fails for the POI-keyed adapter: an itinerary of two segments,
  08:00 to 10:00 and 12:00 to 13:00 with travel durations of two hours and one hour, is
  the third trip of the result; its duration is 180 minutes, its arrival is 300 minutes
  after its departure.
\<close>

theorem adapters_duration_counterexample:
  "map duration sampleModernRun = [Some 300, Some 330, Some 180] \<and>
   map (clockDuration sampleDateParse) sampleModernRun = [Some 300, Some 330, Some 300]"
  by code_simp

text \<open>
  Claim C10. Every trip that parseApiResponse returns has exactly one segment, and the
  departureTime, arrivalTime, operator and vehicleType of that segment are those of the
  trip.
\<close>

theorem parseApiResponse_single_segment:
  assumes "parseApiResponse stations dateParse localeCompare itineraryResponses
             originId destId date company = Inr trips"
  shows "\<forall>t \<in> set trips.
           \<exists>s. segments t = [s] \<and> seg_departureTime s = departureTime t \<and>
               seg_arrivalTime s = arrivalTime t \<and> seg_operator s = operator t \<and>
               seg_vehicleType s = vehicleType t"
proof (rule parseApiResponse_all[OF _ assms])
  fix key opt t
  assume "legacyTrip stations dateParse originId destId key opt = Some (Inr t)"
  then show "\<exists>s. segments t = [s] \<and> seg_departureTime s = departureTime t \<and>
               seg_arrivalTime s = arrivalTime t \<and> seg_operator s = operator t \<and>
               seg_vehicleType s = vehicleType t"
    by (rule legacyTrip_segment)
qed

theorem parseApiResponse_single_segment_witness:
  "\<exists>s. segments (hd (projr sampleLegacyRun)) = [s] \<and>
       seg_departureTime s = departureTime (hd (projr sampleLegacyRun)) \<and>
       seg_arrivalTime s = arrivalTime (hd (projr sampleLegacyRun)) \<and>
       seg_operator s = operator (hd (projr sampleLegacyRun)) \<and>
       seg_vehicleType s = vehicleType (hd (projr sampleLegacyRun))"
proof -
  have "\<not> isl sampleLegacyRun" by code_simp
  then have run: "parseApiResponse sampleData sampleDateParse codeUnitCompare sampleLegacyResponse
       ''B1'' ''P1'' ''2025-06-01'' TwelveGo = Inr (projr sampleLegacyRun)"
    by (simp add: sampleLegacyRun_def)
  have "projr sampleLegacyRun \<noteq> []" by code_simp
  then have l: "hd (projr sampleLegacyRun) \<in> set (projr sampleLegacyRun)" by simp
  from parseApiResponse_single_segment[OF run, THEN bspec, OF l] show ?thesis .
qed

end
